theory Spec2Isabelle
  imports Complex_Main
begin

section \<open>JavaScript values\<close>

text \<open>
  The orchestrator treats most of what it handles as opaque JavaScript values and only
  tests them for truthiness (\<^verbatim>\<open>a || b\<close>, \<^verbatim>\<open>!x\<close>) or reads one property of them.
  Numbers are integers here, with \<open>JNaN\<close> for the one falsy number that is not zero;
  an object is its list of own properties.  A property that is absent and a property
  whose value is \<^verbatim>\<open>undefined\<close> both read as \<open>JUndefined\<close>.
\<close>

datatype jsval =
    JUndefined
  | JNull
  | JBool bool
  | JNum int
  | JNaN
  | JStr string
  | JObj "(string \<times> jsval) list"

fun truthy :: "jsval \<Rightarrow> bool" where
  "truthy JUndefined = False"
| "truthy JNull = False"
| "truthy (JBool b) = b"
| "truthy (JNum n) = (n \<noteq> 0)"
| "truthy JNaN = False"
| "truthy (JStr s) = (s \<noteq> [])"
| "truthy (JObj kvs) = True"

text \<open>\<^verbatim>\<open>a || b\<close> on values.\<close>

definition js_or :: "jsval \<Rightarrow> jsval \<Rightarrow> jsval" where
  "js_or a b = (if truthy a then a else b)"

text \<open>
  \<^verbatim>\<open>a || b\<close> where \<open>a\<close> is an optional string (\<open>None\<close> when the property is absent):
  the empty string is falsy as well.
\<close>

definition str_or :: "string option \<Rightarrow> string \<Rightarrow> string" where
  "str_or a b = (case a of None \<Rightarrow> b | Some s \<Rightarrow> if s \<noteq> [] then s else b)"

text \<open>
  What a call raises: an \<^verbatim>\<open>Error\<close>, \<^verbatim>\<open>TypeError\<close> or \<^verbatim>\<open>RangeError\<close> object with its
  message, or any other value that was thrown (\<^verbatim>\<open>throw null\<close>, \<^verbatim>\<open>throw 'boom'\<close>).
\<close>

datatype failure = Failure string | TypeError string | RangeError string | Thrown jsval

text \<open>
  Reading property \<open>k\<close> of a value: \<^verbatim>\<open>undefined\<close> and \<^verbatim>\<open>null\<close> raise a TypeError
  (the message is the one of V8), an object yields its property or \<^verbatim>\<open>undefined\<close>, every
  other primitive yields \<^verbatim>\<open>undefined\<close>.
\<close>

definition read_of_nullish :: "string \<Rightarrow> string \<Rightarrow> failure" where
  "read_of_nullish what k =
     TypeError (''Cannot read properties of '' @ what @ '' (reading '' @ [CHR 0x27] @ k
                @ [CHR 0x27] @ '')'')"

fun get_prop :: "jsval \<Rightarrow> string \<Rightarrow> failure + jsval" where
  "get_prop JUndefined k = Inl (read_of_nullish ''undefined'' k)"
| "get_prop JNull k = Inl (read_of_nullish ''null'' k)"
| "get_prop (JObj kvs) k = Inr (case map_of kvs k of None \<Rightarrow> JUndefined | Some v \<Rightarrow> v)"
| "get_prop v k = Inr JUndefined"

text \<open>
  \<^verbatim>\<open>error.message\<close> on what was caught: the message of an error object; for any other
  thrown value the property read, which raises on \<^verbatim>\<open>null\<close> and \<^verbatim>\<open>undefined\<close>.
\<close>

fun message :: "failure \<Rightarrow> failure + jsval" where
  "message (Failure m) = Inr (JStr m)"
| "message (TypeError m) = Inr (JStr m)"
| "message (RangeError m) = Inr (JStr m)"
| "message (Thrown v) = get_prop v ''message''"

section \<open>Numbers and dates\<close>

text \<open>
  A JavaScript number, as far as the arithmetic on times needs it: a finite value, taken
  as an exact rational (the rounding of doubles is not modelled), the two infinities and
  \<^verbatim>\<open>NaN\<close>.
\<close>

datatype number = Finite rat | PlusInfinity | MinusInfinity | NotANumber

text \<open>\<^verbatim>\<open>Date.now() + ttl\<close>: the clock reading is an integer number of milliseconds.\<close>

fun plus_now :: "int \<Rightarrow> number \<Rightarrow> number" where
  "plus_now n (Finite q) = Finite (of_int n + q)"
| "plus_now n v = v"

text \<open>Truncation towards zero, as \<^verbatim>\<open>new Date(v)\<close> does to a time value.\<close>

definition to_integer :: "rat \<Rightarrow> int" where
  "to_integer q = (if q < 0 then \<lceil>q\<rceil> else \<lfloor>q\<rfloor>)"

definition invalid_time :: failure where
  "invalid_time = RangeError ''Invalid time value''"

text \<open>
  \<^verbatim>\<open>new Date(v).toISOString()\<close>: a time value is valid when it is finite and at most
  8.64e15 ms from the epoch; the result stands for the ISO string of the truncated value.
  An invalid date raises a RangeError.
\<close>

fun date_toISOString :: "number \<Rightarrow> failure + int" where
  "date_toISOString (Finite q) =
     (if \<bar>q\<bar> \<le> 8640000000000000 then Inr (to_integer q) else Inl invalid_time)"
| "date_toISOString v = Inl invalid_time"

text \<open>
  The failures that the expressions of an error task's object literal raise:
  \<^verbatim>\<open>error.message\<close> when the caught value is \<^verbatim>\<open>undefined\<close> or \<^verbatim>\<open>null\<close>, and
  \<^verbatim>\<open>toISOString\<close> when the expiry is not a valid time.
\<close>

definition error_task_failure :: "failure \<Rightarrow> bool" where
  "error_task_failure e \<longleftrightarrow>
     e = read_of_nullish ''undefined'' ''message'' \<or> e = read_of_nullish ''null'' ''message''
     \<or> e = invalid_time"

section \<open>Tasks, requests, engine results\<close>

datatype status = Paused | Completed | Error

text \<open>
  The task object.  \<open>t_id\<close>, \<open>t_name\<close>, \<open>t_code\<close> are its \<^verbatim>\<open>id\<close>, \<^verbatim>\<open>name\<close>, \<^verbatim>\<open>code\<close>.
  A timestamp is the number of milliseconds since the epoch that its ISO string renders;
  \<open>createdAt\<close> and \<open>updatedAt\<close> are \<open>None\<close> when the object has no such key.
\<close>

record task =
  t_id :: string
  t_name :: string
  t_code :: string
  status :: status
  result :: jsval
  error :: jsval
  vmState :: jsval
  pausedState :: jsval
  fetchRequest :: jsval
  createdAt :: "int option"
  updatedAt :: "int option"
  expiresAt :: int

text \<open>The request of \<^verbatim>\<open>execute\<close>: \<^verbatim>\<open>{id?, name?, code}\<close>.\<close>

record request =
  rq_id :: "string option"
  rq_name :: "string option"
  rq_code :: string

text \<open>
  The options of \<^verbatim>\<open>execute\<close> next to the storage: \<open>None\<close>, an option that is absent
  or \<^verbatim>\<open>undefined\<close>, takes the default.  \<^verbatim>\<open>saveToStorage\<close> is a boolean and \<^verbatim>\<open>ttl\<close>
  a JavaScript number of milliseconds, which can be fractional, infinite or \<^verbatim>\<open>NaN\<close>;
  an option of another type is not modelled.
\<close>

record options =
  saveToStorage :: "bool option"
  ttl :: "number option"

text \<open>The request of \<^verbatim>\<open>resume\<close>.\<close>

record resume_request =
  taskId :: string
  rq_vmState :: jsval
  rq_pausedState :: jsval
  originalCode :: "string option"
  fetchResponse :: jsval

text \<open>What the engine returns: \<^verbatim>\<open>{type, result, error, state, fetchRequest}\<close>.\<close>

record vmresult =
  r_type :: jsval
  r_result :: jsval
  r_error :: jsval
  r_state :: jsval
  r_fetchRequest :: jsval

section \<open>The engine, the storage adapter and the world\<close>

text \<open>
  The engine (\<^verbatim>\<open>SequentialFetchVM\<close>) is external: the instance a call creates is a
  parameter.  \<open>initialize\<close> is \<open>Some e\<close> when it raises \<open>e\<close>; \<open>paused_init\<close> is the content
  of the \<^verbatim>\<open>paused\<close> slot of a fresh instance; \<open>executeCode\<close> and \<open>resumeExecution\<close>
  raise or return a result together with the content of the \<^verbatim>\<open>paused\<close> slot afterwards.
  \<open>resumeExecution\<close> gets the slot's content before the call, the \<^verbatim>\<open>vmState\<close> and the
  response value.  Creating the instance does not fail, and \<^verbatim>\<open>dispose\<close>, which releases
  resources, does not fail either.
\<close>

record engine =
  initialize :: "failure option"
  paused_init :: jsval
  executeCode :: "string \<Rightarrow> failure + (vmresult \<times> jsval)"
  resumeExecution :: "jsval \<Rightarrow> jsval \<Rightarrow> jsval \<Rightarrow> failure + (vmresult \<times> jsval)"

text \<open>
  The environment of one call: \<open>now k\<close> is the \<open>k\<close>-th reading of the clock
  (\<^verbatim>\<open>Date.now()\<close>, \<^verbatim>\<open>new Date()\<close>), in milliseconds, \<open>mathRandom k\<close> the \<open>k\<close>-th value
  of \<^verbatim>\<open>Math.random().toString(36).slice(2)\<close>, \<open>vm\<close> the engine instance the call
  creates.  A reading of the clock is a valid time: \<^verbatim>\<open>new Date().toISOString()\<close> does
  not raise.
\<close>

record env =
  now :: "nat \<Rightarrow> int"
  mathRandom :: "nat \<Rightarrow> string"
  vm :: engine

text \<open>
  A storage adapter over a backend state \<open>'s\<close>.  Each operation returns the new backend
  state, and a failure when it raises.
\<close>

record 's adapter =
  save :: "task \<Rightarrow> 's \<Rightarrow> failure option \<times> 's"
  load :: "string \<Rightarrow> 's \<Rightarrow> (failure + task option) \<times> 's"
  delete :: "string \<Rightarrow> 's \<Rightarrow> failure option \<times> 's"

text \<open>Every call on the engine instance and on the adapter is recorded, in order.\<close>

datatype event =
    EvNew
  | EvInitialize
  | EvExecuteCode string
  | EvResumeExecution jsval jsval jsval
  | EvDispose
  | EvSave task
  | EvLoad string
  | EvDelete string

record 's world =
  store :: 's
  clock_reads :: nat
  random_reads :: nat
  trace :: "event list"

definition emit :: "event \<Rightarrow> 's world \<Rightarrow> 's world" where
  "emit e w = w\<lparr>trace := trace w @ [e]\<rparr>"

definition read_clock :: "env \<Rightarrow> 's world \<Rightarrow> int \<times> 's world" where
  "read_clock E w = (now E (clock_reads w), w\<lparr>clock_reads := Suc (clock_reads w)\<rparr>)"

definition read_random :: "env \<Rightarrow> 's world \<Rightarrow> string \<times> 's world" where
  "read_random E w = (mathRandom E (random_reads w), w\<lparr>random_reads := Suc (random_reads w)\<rparr>)"

text \<open>The adapter's operations on the world, with their event.\<close>

definition storage_save :: "'s adapter \<Rightarrow> task \<Rightarrow> 's world \<Rightarrow> failure option \<times> 's world" where
  "storage_save S t w =
     (case save S t (store w) of (r, s') \<Rightarrow> (r, emit (EvSave t) (w\<lparr>store := s'\<rparr>)))"

definition storage_load :: "'s adapter \<Rightarrow> string \<Rightarrow> 's world \<Rightarrow> (failure + task option) \<times> 's world" where
  "storage_load S k w =
     (case load S k (store w) of (r, s') \<Rightarrow> (r, emit (EvLoad k) (w\<lparr>store := s'\<rparr>)))"

definition storage_delete :: "'s adapter \<Rightarrow> string \<Rightarrow> 's world \<Rightarrow> failure option \<times> 's world" where
  "storage_delete S k w =
     (case delete S k (store w) of (r, s') \<Rightarrow> (r, emit (EvDelete k) (w\<lparr>store := s'\<rparr>)))"

section \<open>Decimal rendering of a number in a template literal\<close>

fun decimal :: "nat \<Rightarrow> string" where
  "decimal n =
     (if n < 10 then [char_of (48 + n)] else decimal (n div 10) @ [char_of (48 + n mod 10)])"

definition show_int :: "int \<Rightarrow> string" where
  "show_int i = (if i < 0 then ''-'' @ decimal (nat (- i)) else decimal (nat i))"

section \<open>execute\<close>

text \<open>
  \<^verbatim>\<open>request.id || `task-${Date.now()}-${Math.random().toString(36).slice(2)}`\<close>:
  the clock and the random source are read only when the request has no usable id.
\<close>

definition make_task_id :: "env \<Rightarrow> request \<Rightarrow> 's world \<Rightarrow> string \<times> 's world" where
  "make_task_id E request w =
     (case rq_id request of
        Some s \<Rightarrow>
          if s \<noteq> [] then (s, w)
          else (let (t, w1) = read_clock E w; (r, w2) = read_random E w1
                in (''task-'' @ show_int t @ ''-'' @ r, w2))
      | None \<Rightarrow>
          (let (t, w1) = read_clock E w; (r, w2) = read_random E w1
           in (''task-'' @ show_int t @ ''-'' @ r, w2)))"

text \<open>The status of a result: pause, complete, or anything else.\<close>

definition status_of :: "vmresult \<Rightarrow> status" where
  "status_of r =
     (if r_type r = JStr ''pause'' then Paused
      else if r_type r = JStr ''complete'' then Completed
      else Error)"

text \<open>
  The task object built from the engine's result in \<^verbatim>\<open>execute\<close>; \<open>paused\<close> is the
  content of \<^verbatim>\<open>vm.paused\<close>, \<open>c\<close> the reading of \<^verbatim>\<open>new Date()\<close> and \<open>x\<close> the
  time of \<^verbatim>\<open>new Date(Date.now() + ttl)\<close>.
\<close>

definition execute_task :: "request \<Rightarrow> string \<Rightarrow> vmresult \<Rightarrow> jsval \<Rightarrow> int \<Rightarrow> int \<Rightarrow> task" where
  "execute_task request tid r paused c x =
     \<lparr> t_id = tid,
       t_name = str_or (rq_name request) tid,
       t_code = rq_code request,
       status = status_of r,
       result = r_result r,
       error = r_error r,
       vmState = r_state r,
       pausedState = (if r_type r = JStr ''pause'' then paused else JNull),
       fetchRequest = r_fetchRequest r,
       createdAt = Some c,
       updatedAt = None,
       expiresAt = x \<rparr>"

text \<open>
  The task object built in the \<^verbatim>\<open>catch\<close> block of \<^verbatim>\<open>execute\<close>; \<open>m\<close> is the value
  of \<^verbatim>\<open>error.message\<close>.
\<close>

definition execute_error_task :: "request \<Rightarrow> string \<Rightarrow> jsval \<Rightarrow> int \<Rightarrow> int \<Rightarrow> task" where
  "execute_error_task request tid m c x =
     \<lparr> t_id = tid,
       t_name = str_or (rq_name request) tid,
       t_code = rq_code request,
       status = Error,
       result = JUndefined,
       error = m,
       vmState = JUndefined,
       pausedState = JUndefined,
       fetchRequest = JUndefined,
       createdAt = Some c,
       updatedAt = None,
       expiresAt = x \<rparr>"

text \<open>
  The body of the \<^verbatim>\<open>try\<close> block of \<^verbatim>\<open>execute\<close>.  The object literal reads the clock
  twice; rendering the expiry raises when \<^verbatim>\<open>Date.now() + ttl\<close> is not a valid time.
\<close>

definition execute_try ::
  "env \<Rightarrow> 's adapter \<Rightarrow> request \<Rightarrow> string \<Rightarrow> bool \<Rightarrow> number \<Rightarrow> 's world \<Rightarrow> (failure + task) \<times> 's world" where
  "execute_try E S request tid sv tt w =
     (let w1 = emit EvInitialize w in
      case initialize (vm E) of
        Some e \<Rightarrow> (Inl e, w1)
      | None \<Rightarrow>
         (let w2 = emit (EvExecuteCode (rq_code request)) w1 in
          case executeCode (vm E) (rq_code request) of
            Inl e \<Rightarrow> (Inl e, w2)
          | Inr (r, paused) \<Rightarrow>
             (let (c, w3) = read_clock E w2;
                  (n, w4) = read_clock E w3
              in case date_toISOString (plus_now n tt) of
                   Inl e \<Rightarrow> (Inl e, w4)
                 | Inr x \<Rightarrow>
                    (let t = execute_task request tid r paused c x
                     in if sv \<and> status t = Paused
                        then (case storage_save S t w4 of
                                (Some e, w5) \<Rightarrow> (Inl e, w5)
                              | (None, w5) \<Rightarrow> (Inr t, w5))
                        else (Inr t, w4)))))"

text \<open>
  The \<^verbatim>\<open>catch\<close> block of \<^verbatim>\<open>execute\<close>: reading the message and rendering the expiry
  can raise in their turn, and nothing catches that.
\<close>

definition execute_catch ::
  "env \<Rightarrow> request \<Rightarrow> string \<Rightarrow> number \<Rightarrow> failure \<Rightarrow> 's world \<Rightarrow> (failure + task) \<times> 's world" where
  "execute_catch E request tid tt e w =
     (case message e of
        Inl e' \<Rightarrow> (Inl e', w)
      | Inr m \<Rightarrow>
         (let (c, w1) = read_clock E w;
              (n, w2) = read_clock E w1
          in case date_toISOString (plus_now n tt) of
               Inl e' \<Rightarrow> (Inl e', w2)
             | Inr x \<Rightarrow> (Inr (execute_error_task request tid m c x), w2)))"

text \<open>The defaults of the options.\<close>

definition option_saveToStorage :: "options \<Rightarrow> bool" where
  "option_saveToStorage opts = (case saveToStorage opts of None \<Rightarrow> True | Some b \<Rightarrow> b)"

definition option_ttl :: "options \<Rightarrow> number" where
  "option_ttl opts = (case ttl opts of None \<Rightarrow> Finite (2 * 60 * 60 * 1000) | Some v \<Rightarrow> v)"

text \<open>
  \<^verbatim>\<open>execute(request, options)\<close> with the storage already chosen (the \<^verbatim>\<open>storage\<close>
  option or the default one): defaults, task id, a new engine instance, then
  \<^verbatim>\<open>try\<close>, \<^verbatim>\<open>catch\<close> and \<^verbatim>\<open>finally\<close>.
\<close>

definition execute ::
  "env \<Rightarrow> 's adapter \<Rightarrow> request \<Rightarrow> options \<Rightarrow> 's world \<Rightarrow> (failure + task) \<times> 's world" where
  "execute E S request opts w =
     (let sv = option_saveToStorage opts;
          tt = option_ttl opts;
          (tid, w1) = make_task_id E request w;
          w2 = emit EvNew w1;
          (r, w3) = execute_try E S request tid sv tt w2;
          (r', w4) = (case r of
                        Inl e \<Rightarrow> execute_catch E request tid tt e w3
                      | Inr t \<Rightarrow> (Inr t, w3))
      in (r', emit EvDispose w4))"

section \<open>resume\<close>

text \<open>\<^verbatim>\<open>fetchResponse.data || fetchResponse\<close>.\<close>

definition response_value :: "jsval \<Rightarrow> failure + jsval" where
  "response_value fr =
     (case get_prop fr ''data'' of
        Inl e \<Rightarrow> Inl e
      | Inr d \<Rightarrow> Inr (js_or d fr))"

text \<open>
  The content of \<^verbatim>\<open>vm.paused\<close> when execution resumes: written only when the request
  or the stored task has a truthy paused state.
\<close>

definition restored_paused :: "env \<Rightarrow> resume_request \<Rightarrow> task \<Rightarrow> jsval" where
  "restored_paused E request st =
     (if truthy (rq_pausedState request) \<or> truthy (pausedState st)
      then js_or (rq_pausedState request) (pausedState st)
      else paused_init (vm E))"

text \<open>\<^verbatim>\<open>new Date(Date.now() + 2 * 60 * 60 * 1000).toISOString()\<close> at the reading \<open>n\<close>.\<close>

definition resume_expiry :: "int \<Rightarrow> failure + int" where
  "resume_expiry n = date_toISOString (plus_now n (Finite (2 * 60 * 60 * 1000)))"

text \<open>
  The task objects of \<^verbatim>\<open>resume\<close>: \<open>u\<close> is the reading of \<^verbatim>\<open>new Date()\<close> and \<open>x\<close> the
  expiry; \<open>st\<close> is the stored task, \<open>m\<close> the value of \<^verbatim>\<open>error.message\<close>.
\<close>

definition resume_task :: "resume_request \<Rightarrow> task \<Rightarrow> vmresult \<Rightarrow> jsval \<Rightarrow> int \<Rightarrow> int \<Rightarrow> task" where
  "resume_task request st r paused u x =
     \<lparr> t_id = taskId request,
       t_name = t_name st,
       t_code = str_or (originalCode request) (t_code st),
       status = status_of r,
       result = r_result r,
       error = r_error r,
       vmState = r_state r,
       pausedState = (if r_type r = JStr ''pause'' then paused else JNull),
       fetchRequest = r_fetchRequest r,
       createdAt = None,
       updatedAt = Some u,
       expiresAt = x \<rparr>"

definition resume_error_task :: "resume_request \<Rightarrow> task \<Rightarrow> jsval \<Rightarrow> int \<Rightarrow> int \<Rightarrow> task" where
  "resume_error_task request st m u x =
     \<lparr> t_id = taskId request,
       t_name = t_name st,
       t_code = str_or (originalCode request) (t_code st),
       status = Error,
       result = JUndefined,
       error = m,
       vmState = JUndefined,
       pausedState = JUndefined,
       fetchRequest = JUndefined,
       createdAt = None,
       updatedAt = Some u,
       expiresAt = x \<rparr>"

text \<open>The body of the \<^verbatim>\<open>try\<close> block of \<^verbatim>\<open>resume\<close>; \<open>st\<close> is the stored task.\<close>

definition resume_try ::
  "env \<Rightarrow> 's adapter \<Rightarrow> resume_request \<Rightarrow> task \<Rightarrow> 's world \<Rightarrow> (failure + task) \<times> 's world" where
  "resume_try E S request st w =
     (let w1 = emit EvInitialize w in
      case initialize (vm E) of
        Some e \<Rightarrow> (Inl e, w1)
      | None \<Rightarrow>
         (let slot = restored_paused E request st
          in case response_value (fetchResponse request) of
               Inl e \<Rightarrow> (Inl e, w1)
             | Inr a \<Rightarrow>
                (let w2 = emit (EvResumeExecution slot (rq_vmState request) a) w1 in
                 case resumeExecution (vm E) slot (rq_vmState request) a of
                   Inl e \<Rightarrow> (Inl e, w2)
                 | Inr (r, paused) \<Rightarrow>
                    (let (u, w3) = read_clock E w2;
                         (n, w4) = read_clock E w3
                     in case resume_expiry n of
                          Inl e \<Rightarrow> (Inl e, w4)
                        | Inr x \<Rightarrow>
                           (let t = resume_task request st r paused u x
                            in if status t = Paused
                               then (case storage_save S t w4 of
                                       (Some e, w5) \<Rightarrow> (Inl e, w5)
                                     | (None, w5) \<Rightarrow> (Inr t, w5))
                               else if status t = Completed \<or> status t = Error
                               then (case storage_delete S (taskId request) w4 of
                                       (Some e, w5) \<Rightarrow> (Inl e, w5)
                                     | (None, w5) \<Rightarrow> (Inr t, w5))
                               else (Inr t, w4))))))"

text \<open>
  The \<^verbatim>\<open>catch\<close> block of \<^verbatim>\<open>resume\<close>: the error task is built first, then the stored
  task is deleted.  A failure of either leaves the call.
\<close>

definition resume_catch ::
  "env \<Rightarrow> 's adapter \<Rightarrow> resume_request \<Rightarrow> task \<Rightarrow> failure \<Rightarrow> 's world \<Rightarrow> (failure + task) \<times> 's world" where
  "resume_catch E S request st e w =
     (case message e of
        Inl e' \<Rightarrow> (Inl e', w)
      | Inr m \<Rightarrow>
         (let (u, w1) = read_clock E w;
              (n, w2) = read_clock E w1
          in case resume_expiry n of
               Inl e' \<Rightarrow> (Inl e', w2)
             | Inr x \<Rightarrow>
                (let t = resume_error_task request st m u x
                 in case storage_delete S (taskId request) w2 of
                      (Some e', w3) \<Rightarrow> (Inl e', w3)
                    | (None, w3) \<Rightarrow> (Inr t, w3))))"

text \<open>What \<^verbatim>\<open>resume\<close> does once the stored task is there: engine, try, catch, finally.\<close>

definition resume_body ::
  "env \<Rightarrow> 's adapter \<Rightarrow> resume_request \<Rightarrow> task \<Rightarrow> 's world \<Rightarrow> (failure + task) \<times> 's world" where
  "resume_body E S request st w =
     (let w1 = emit EvNew w;
          (r, w2) = resume_try E S request st w1;
          (r', w3) = (case r of
                        Inl e \<Rightarrow> resume_catch E S request st e w2
                      | Inr t \<Rightarrow> (Inr t, w2))
      in (r', emit EvDispose w3))"

definition not_found :: "string \<Rightarrow> failure" where
  "not_found k = Failure (''Task '' @ k @ '' not found in storage'')"

definition resume ::
  "env \<Rightarrow> 's adapter \<Rightarrow> resume_request \<Rightarrow> 's world \<Rightarrow> (failure + task) \<times> 's world" where
  "resume E S request w =
     (case storage_load S (taskId request) w of
        (Inl e, w1) \<Rightarrow> (Inl e, w1)
      | (Inr None, w1) \<Rightarrow> (Inl (not_found (taskId request)), w1)
      | (Inr (Some st), w1) \<Rightarrow> resume_body E S request st w1)"

section \<open>getTask, deleteTask\<close>

definition getTask :: "'s adapter \<Rightarrow> string \<Rightarrow> 's world \<Rightarrow> (failure + task option) \<times> 's world" where
  "getTask S k w = storage_load S k w"

definition deleteTask :: "'s adapter \<Rightarrow> string \<Rightarrow> 's world \<Rightarrow> (failure + unit) \<times> 's world" where
  "deleteTask S k w =
     (case storage_delete S k w of
        (Some e, w1) \<Rightarrow> (Inl e, w1)
      | (None, w1) \<Rightarrow> (Inr (), w1))"

section \<open>The in-memory adapter\<close>

text \<open>
  A JavaScript \<^verbatim>\<open>Map\<close> keeps its entries in insertion order, one per key: \<^verbatim>\<open>set\<close>
  replaces the value of a key that is there and appends a new key at the end,
  \<^verbatim>\<open>delete\<close> leaves no entry for the key.
\<close>

type_synonym jsmap = "(string \<times> task) list"

fun map_set :: "string \<Rightarrow> task \<Rightarrow> jsmap \<Rightarrow> jsmap" where
  "map_set k v [] = [(k, v)]"
| "map_set k v ((k', v') # m) = (if k' = k then (k, v) # m else (k', v') # map_set k v m)"

fun map_get :: "string \<Rightarrow> jsmap \<Rightarrow> task option" where
  "map_get k [] = None"
| "map_get k ((k', v') # m) = (if k' = k then Some v' else map_get k m)"

fun map_delete :: "string \<Rightarrow> jsmap \<Rightarrow> jsmap" where
  "map_delete k [] = []"
| "map_delete k ((k', v') # m) = (if k' = k then map_delete k m else (k', v') # map_delete k m)"

definition InMemoryStorage :: "jsmap adapter" where
  "InMemoryStorage =
     \<lparr> save = (\<lambda>t m. (None, map_set (t_id t) t m)),
       load = (\<lambda>k m. (Inr (map_get k m), m)),
       delete = (\<lambda>k m. (None, map_delete k m)) \<rparr>"

text \<open>\<^verbatim>\<open>list\<close> and \<^verbatim>\<open>clear\<close> of the adapter in \<^verbatim>\<open>lib/storage.cjs\<close>.\<close>

definition list_tasks :: "jsmap \<Rightarrow> task list" where
  "list_tasks m = map snd m"

definition clear :: "jsmap \<Rightarrow> jsmap" where
  "clear m = []"

section \<open>Reading a trace\<close>

text \<open>The events a call added to the trace.\<close>

definition emitted :: "'s world \<Rightarrow> 's world \<Rightarrow> event list" where
  "emitted w w' = drop (length (trace w)) (trace w')"

fun saved_tasks :: "event list \<Rightarrow> task list" where
  "saved_tasks [] = []"
| "saved_tasks (EvSave t # es) = t # saved_tasks es"
| "saved_tasks (e # es) = saved_tasks es"

fun is_storage_event :: "event \<Rightarrow> bool" where
  "is_storage_event (EvSave t) = True"
| "is_storage_event (EvLoad k) = True"
| "is_storage_event (EvDelete k) = True"
| "is_storage_event e = False"

section \<open>The base class of custom adapters\<close>

text \<open>
  \<^verbatim>\<open>CustomStorage\<close> of \<^verbatim>\<open>lib/storage.cjs\<close>: every method raises until a subclass
  implements it.  It has no state of its own.
\<close>

definition CustomStorage :: "'s adapter" where
  "CustomStorage =
     \<lparr> save = (\<lambda>t s. (Some (Failure ''save() method must be implemented''), s)),
       load = (\<lambda>k s. (Inl (Failure ''load() method must be implemented''), s)),
       delete = (\<lambda>k s. (Some (Failure ''delete() method must be implemented''), s)) \<rparr>"

section \<open>Example engines, requests and worlds\<close>

text \<open>
  An engine that pauses at a fetch and completes with the response value when resumed,
  an engine whose run raises, a clock that starts at 1000 and advances by one per reading,
  and the requests of the scenarios of the test file.
\<close>

definition pause_result :: vmresult where
  "pause_result =
     \<lparr> r_type = JStr ''pause'', r_result = JUndefined, r_error = JUndefined,
       r_state = JObj [(''pc'', JNum 1)],
       r_fetchRequest = JObj [(''id'', JNum 1), (''url'', JStr ''u/1'')] \<rparr>"

definition complete_result :: "jsval \<Rightarrow> vmresult" where
  "complete_result v =
     \<lparr> r_type = JStr ''complete'', r_result = v, r_error = JUndefined,
       r_state = JUndefined, r_fetchRequest = JUndefined \<rparr>"

definition fetching_engine :: engine where
  "fetching_engine =
     \<lparr> initialize = None, paused_init = JNull,
       executeCode = (\<lambda>c. Inr (pause_result, JObj [(''fetch'', JNum 1)])),
       resumeExecution = (\<lambda>slot v a. Inr (complete_result a, JNull)) \<rparr>"

definition throwing_engine :: engine where
  "throwing_engine =
     \<lparr> initialize = None, paused_init = JNull,
       executeCode = (\<lambda>c. Inl (Failure ''boom'')),
       resumeExecution = (\<lambda>slot v a. Inl (Failure ''boom'')) \<rparr>"

definition test_env :: "engine \<Rightarrow> env" where
  "test_env e = \<lparr> now = (\<lambda>k. 1000 + int k), mathRandom = (\<lambda>k. ''abc''), vm = e \<rparr>"

definition empty_world :: "jsmap world" where
  "empty_world = \<lparr> store = [], clock_reads = 0, random_reads = 0, trace = [] \<rparr>"

definition test_request :: "string \<Rightarrow> request" where
  "test_request k = \<lparr> rq_id = Some k, rq_name = None, rq_code = ''const u = fetch(1); u'' \<rparr>"

definition default_options :: options where
  "default_options = \<lparr> saveToStorage = None, ttl = None \<rparr>"

definition test_resume :: "string \<Rightarrow> jsval \<Rightarrow> resume_request" where
  "test_resume k fr =
     \<lparr> taskId = k, rq_vmState = JObj [(''pc'', JNum 1)], rq_pausedState = JUndefined,
       originalCode = None, fetchResponse = fr \<rparr>"

definition paused_world :: "jsmap world" where
  "paused_world =
     snd (execute (test_env fetching_engine) InMemoryStorage (test_request ''t2'')
            default_options empty_world)"

text \<open>The task that the first example stores, and a later snapshot under the same id.\<close>

definition stored_task :: task where
  "stored_task =
     execute_task (test_request ''t2'') ''t2'' pause_result (JObj [(''fetch'', JNum 1)])
       1000 7201001"

definition later_task :: task where
  "later_task = stored_task\<lparr>vmState := JObj [(''pc'', JNum 2)], updatedAt := Some 2000\<rparr>"

text \<open>
  An engine that completes and still reports its state, and one whose run raises a failure
  with an empty message (\<^verbatim>\<open>throw new Error()\<close>).
\<close>

definition checkpoint_result :: vmresult where
  "checkpoint_result =
     \<lparr> r_type = JStr ''complete'', r_result = JNum 10, r_error = JUndefined,
       r_state = JObj [(''pc'', JNum 2)], r_fetchRequest = JUndefined \<rparr>"

definition checkpointing_engine :: engine where
  "checkpointing_engine =
     \<lparr> initialize = None, paused_init = JNull,
       executeCode = (\<lambda>c. Inr (checkpoint_result, JNull)),
       resumeExecution = (\<lambda>slot v a. Inr (checkpoint_result, JNull)) \<rparr>"

definition silent_engine :: engine where
  "silent_engine =
     \<lparr> initialize = None, paused_init = JNull,
       executeCode = (\<lambda>c. Inl (Failure [])),
       resumeExecution = (\<lambda>slot v a. Inl (Failure [])) \<rparr>"

text \<open>
  An engine whose run throws \<^verbatim>\<open>null\<close>, a clock that stands still, a clock that steps
  back, and options with a time-to-live at the end of the range of dates, and of half a
  millisecond.
\<close>

definition null_throwing_engine :: engine where
  "null_throwing_engine =
     \<lparr> initialize = None, paused_init = JNull,
       executeCode = (\<lambda>c. Inl (Thrown JNull)),
       resumeExecution = (\<lambda>slot v a. Inl (Thrown JNull)) \<rparr>"

definition still_env :: "engine \<Rightarrow> env" where
  "still_env e = \<lparr> now = (\<lambda>k. 1000), mathRandom = (\<lambda>k. ''abc''), vm = e \<rparr>"

definition backward_env :: "engine \<Rightarrow> env" where
  "backward_env e = \<lparr> now = (\<lambda>k. 1000 - 5 * int k), mathRandom = (\<lambda>k. ''abc''), vm = e \<rparr>"

definition ttl_options :: "number \<Rightarrow> options" where
  "ttl_options v = \<lparr> saveToStorage = None, ttl = Some v \<rparr>"

text \<open>
  Two adapters that extend \<^verbatim>\<open>CustomStorage\<close> over a \<^verbatim>\<open>Map\<close>: one implements
  \<^verbatim>\<open>load\<close> and \<^verbatim>\<open>delete\<close> and inherits \<^verbatim>\<open>save\<close>, the other implements \<^verbatim>\<open>load\<close>
  alone.  And an engine that pauses again when it is resumed.
\<close>

definition save_failing_storage :: "jsmap adapter" where
  "save_failing_storage =
     \<lparr> save = save CustomStorage, load = load InMemoryStorage,
       delete = delete InMemoryStorage \<rparr>"

definition read_only_storage :: "jsmap adapter" where
  "read_only_storage =
     \<lparr> save = save CustomStorage, load = load InMemoryStorage,
       delete = delete CustomStorage \<rparr>"

definition repausing_engine :: engine where
  "repausing_engine =
     \<lparr> initialize = None, paused_init = JNull,
       executeCode = (\<lambda>c. Inr (pause_result, JObj [(''fetch'', JNum 1)])),
       resumeExecution = (\<lambda>slot v a. Inr (pause_result, JObj [(''fetch'', JNum 2)])) \<rparr>"

section \<open>The status-field invariants of the data model\<close>





section \<open>Lemmas about the model\<close>

declare decimal.simps [simp del]

subsection \<open>The map of the in-memory adapter\<close>

lemma map_get_set: "map_get k' (map_set k v m) = (if k' = k then Some v else map_get k' m)"
  by (induction m) auto

lemma map_set_set: "map_set k v2 (map_set k v1 m) = map_set k v2 m"
  by (induction m) auto

lemma length_map_set: "length (map_set k v2 m) = length (map_set k v1 m)"
  by (induction m) auto

lemma map_get_delete: "map_get k' (map_delete k m) = (if k' = k then None else map_get k' m)"
  by (induction m) auto

lemma map_delete_delete: "map_delete k (map_delete k m) = map_delete k m"
  by (induction m) auto

lemma map_delete_absent: "map_get k m = None \<Longrightarrow> map_delete k m = m"
  by (induction m) (auto split: if_splits)

lemma in_memory_simps:
  "save InMemoryStorage t m = (None, map_set (t_id t) t m)"
  "load InMemoryStorage k m = (Inr (map_get k m), m)"
  "delete InMemoryStorage k m = (None, map_delete k m)"
  by (simp_all add: InMemoryStorage_def)

subsection \<open>The world\<close>

lemma emit_simps [simp]:
  "trace (emit e w) = trace w @ [e]"
  "store (emit e w) = store w"
  "clock_reads (emit e w) = clock_reads w"
  "random_reads (emit e w) = random_reads w"
  by (simp_all add: emit_def)

lemma emitted_append: "trace w' = trace w @ evs \<Longrightarrow> emitted w w' = evs"
  by (simp add: emitted_def)

lemma storage_save_world:
  "storage_save S t w = (r, w') \<Longrightarrow>
     trace w' = trace w @ [EvSave t] \<and> save S t (store w) = (r, store w')
     \<and> clock_reads w' = clock_reads w"
  by (auto simp: storage_save_def split: prod.splits)

lemma storage_load_world:
  "storage_load S k w = (r, w') \<Longrightarrow>
     trace w' = trace w @ [EvLoad k] \<and> load S k (store w) = (r, store w')
     \<and> clock_reads w' = clock_reads w"
  by (auto simp: storage_load_def split: prod.splits)

lemma storage_delete_world:
  "storage_delete S k w = (r, w') \<Longrightarrow>
     trace w' = trace w @ [EvDelete k] \<and> delete S k (store w) = (r, store w')
     \<and> clock_reads w' = clock_reads w"
  by (auto simp: storage_delete_def split: prod.splits)

lemma storage_save_in_memory:
  "storage_save InMemoryStorage t w =
     (None, emit (EvSave t) (w\<lparr>store := map_set (t_id t) t (store w)\<rparr>))"
  by (simp add: storage_save_def in_memory_simps)

lemma storage_load_in_memory:
  "storage_load InMemoryStorage k w = (Inr (map_get k (store w)), emit (EvLoad k) w)"
  by (simp add: storage_load_def in_memory_simps)

lemma storage_delete_in_memory:
  "storage_delete InMemoryStorage k w =
     (None, emit (EvDelete k) (w\<lparr>store := map_delete k (store w)\<rparr>))"
  by (simp add: storage_delete_def in_memory_simps)

lemma make_task_id_world:
  "make_task_id E rq w = (tid, w1) \<Longrightarrow> trace w1 = trace w \<and> store w1 = store w"
  by (auto simp: make_task_id_def read_clock_def read_random_def Let_def
      split: option.splits if_splits)

lemma status_of_cases:
  "status_of res \<noteq> Paused \<Longrightarrow> status_of res = Completed \<or> status_of res = Error"
  by (cases "status_of res") auto

lemma task_status [simp]:
  "status (execute_task rq tid res p c x) = status_of res"
  "status (execute_error_task rq tid m c x) = Error"
  "status (resume_task rr st res p u x) = status_of res"
  "status (resume_error_task rr st m u x) = Error"
  by (simp_all add: execute_task_def execute_error_task_def resume_task_def
      resume_error_task_def)

lemma saved_tasks_append: "saved_tasks (xs @ ys) = saved_tasks xs @ saved_tasks ys"
  by (induction xs rule: saved_tasks.induct) auto

lemma count_list_append: "count_list (xs @ ys) x = count_list xs x + count_list ys x"
  by (induction xs) auto

lemma count_list_absent: "x \<notin> set xs \<Longrightarrow> count_list xs x = 0"
  by (induction xs) auto

subsection \<open>The paths through the try block of execute\<close>

lemma execute_try_cases
  [consumes 1, case_names init_fail exec_fail expiry_fail plain saved save_fail]:
  assumes "execute_try E S rq tid sv tt w = (r, w')"
  obtains
    (init_fail) e where
      "initialize (vm E) = Some e" "r = Inl e"
      "trace w' = trace w @ [EvInitialize]" "store w' = store w"
      "clock_reads w' = clock_reads w"
  | (exec_fail) e where
      "initialize (vm E) = None" "executeCode (vm E) (rq_code rq) = Inl e" "r = Inl e"
      "trace w' = trace w @ [EvInitialize, EvExecuteCode (rq_code rq)]" "store w' = store w"
      "clock_reads w' = clock_reads w"
  | (expiry_fail) res p e where
      "initialize (vm E) = None" "executeCode (vm E) (rq_code rq) = Inr (res, p)"
      "date_toISOString (plus_now (now E (Suc (clock_reads w))) tt) = Inl e" "r = Inl e"
      "trace w' = trace w @ [EvInitialize, EvExecuteCode (rq_code rq)]" "store w' = store w"
      "clock_reads w' = Suc (Suc (clock_reads w))"
  | (plain) res p x t where
      "initialize (vm E) = None" "executeCode (vm E) (rq_code rq) = Inr (res, p)"
      "date_toISOString (plus_now (now E (Suc (clock_reads w))) tt) = Inr x"
      "t = execute_task rq tid res p (now E (clock_reads w)) x"
      "\<not> (sv \<and> status_of res = Paused)" "r = Inr t"
      "trace w' = trace w @ [EvInitialize, EvExecuteCode (rq_code rq)]" "store w' = store w"
  | (saved) res p x t where
      "initialize (vm E) = None" "executeCode (vm E) (rq_code rq) = Inr (res, p)"
      "date_toISOString (plus_now (now E (Suc (clock_reads w))) tt) = Inr x"
      "t = execute_task rq tid res p (now E (clock_reads w)) x"
      "sv" "status_of res = Paused" "save S t (store w) = (None, store w')" "r = Inr t"
      "trace w' = trace w @ [EvInitialize, EvExecuteCode (rq_code rq), EvSave t]"
  | (save_fail) res p x t e where
      "initialize (vm E) = None" "executeCode (vm E) (rq_code rq) = Inr (res, p)"
      "date_toISOString (plus_now (now E (Suc (clock_reads w))) tt) = Inr x"
      "t = execute_task rq tid res p (now E (clock_reads w)) x"
      "sv" "status_of res = Paused" "save S t (store w) = (Some e, store w')" "r = Inl e"
      "trace w' = trace w @ [EvInitialize, EvExecuteCode (rq_code rq), EvSave t]"
      "clock_reads w' = Suc (Suc (clock_reads w))"
proof (cases "initialize (vm E)")
  case (Some e)
  with assms show ?thesis by (intro init_fail [of e]) (auto simp: execute_try_def Let_def)
next
  case None
  note init = this
  show ?thesis
  proof (cases "executeCode (vm E) (rq_code rq)")
    case (Inl e)
    with assms init show ?thesis
      by (intro exec_fail [of e]) (auto simp: execute_try_def Let_def)
  next
    case (Inr rp)
    obtain res p where rp: "rp = (res, p)" by (cases rp)
    define w4 where
      "w4 = (emit (EvExecuteCode (rq_code rq)) (emit EvInitialize w))
              \<lparr>clock_reads := Suc (Suc (clock_reads w))\<rparr>"
    have w4: "trace w4 = trace w @ [EvInitialize, EvExecuteCode (rq_code rq)]"
      "store w4 = store w" "clock_reads w4 = Suc (Suc (clock_reads w))"
      by (simp_all add: w4_def)
    show ?thesis
    proof (cases "date_toISOString (plus_now (now E (Suc (clock_reads w))) tt)")
      case (Inl e)
      with assms init Inr rp have "r = Inl e" "w' = w4"
        by (auto simp: execute_try_def Let_def read_clock_def w4_def)
      with init Inr rp Inl w4 show ?thesis
        by (intro expiry_fail [of res p e]) simp_all
    next
      case (Inr x)
      note date = this
      define t where "t = execute_task rq tid res p (now E (clock_reads w)) x"
      have body1: "\<not> (sv \<and> status_of res = Paused) \<Longrightarrow>
          execute_try E S rq tid sv tt w = (Inr t, w4)"
        using init \<open>executeCode (vm E) (rq_code rq) = Inr rp\<close> rp date
        by (auto simp: execute_try_def Let_def read_clock_def t_def w4_def)
      have body2: "sv \<and> status_of res = Paused \<Longrightarrow> storage_save S t w4 = (y, w5) \<Longrightarrow>
          execute_try E S rq tid sv tt w = ((case y of Some e \<Rightarrow> Inl e | None \<Rightarrow> Inr t), w5)"
        for y w5
        using init \<open>executeCode (vm E) (rq_code rq) = Inr rp\<close> rp date
        by (auto simp: execute_try_def Let_def read_clock_def t_def w4_def split: option.splits)
      show ?thesis
      proof (cases "sv \<and> status_of res = Paused")
        case False
        with assms body1 have "r = Inr t" "w' = w4" by simp_all
        with init \<open>executeCode (vm E) (rq_code rq) = Inr rp\<close> rp date False w4 show ?thesis
          by (intro plain [of res p x t]) (simp_all add: t_def)
      next
        case True
        obtain y w5 where s: "storage_save S t w4 = (y, w5)" by force
        from storage_save_world [OF s] w4
        have w5: "trace w5 = trace w @ [EvInitialize, EvExecuteCode (rq_code rq), EvSave t]"
          "save S t (store w) = (y, store w5)" "clock_reads w5 = Suc (Suc (clock_reads w))"
          by simp_all
        show ?thesis
        proof (cases y)
          case None
          with assms body2 [OF True s] have "r = Inr t" "w' = w5" by simp_all
          with init \<open>executeCode (vm E) (rq_code rq) = Inr rp\<close> rp date True w5 None
          show ?thesis
            by (intro saved [of res p x t]) (simp_all add: t_def)
        next
          case (Some e)
          with assms body2 [OF True s] have "r = Inl e" "w' = w5" by simp_all
          with init \<open>executeCode (vm E) (rq_code rq) = Inr rp\<close> rp date True w5 Some
          show ?thesis
            by (intro save_fail [of res p x t e]) (simp_all add: t_def)
        qed
      qed
    qed
  qed
qed

subsection \<open>The paths through the catch block of execute\<close>

lemma execute_catch_cases [consumes 1, case_names unreadable invalid built]:
  assumes "execute_catch E rq tid tt e w = (r, w')"
  obtains
    (unreadable) e' where
      "message e = Inl e'" "r = Inl e'" "trace w' = trace w" "store w' = store w"
  | (invalid) m e' where
      "message e = Inr m"
      "date_toISOString (plus_now (now E (Suc (clock_reads w))) tt) = Inl e'" "r = Inl e'"
      "trace w' = trace w" "store w' = store w"
  | (built) m x where
      "message e = Inr m"
      "date_toISOString (plus_now (now E (Suc (clock_reads w))) tt) = Inr x"
      "r = Inr (execute_error_task rq tid m (now E (clock_reads w)) x)"
      "trace w' = trace w" "store w' = store w"
proof (cases "message e")
  case (Inl e')
  with assms show ?thesis by (intro unreadable [of e']) (auto simp: execute_catch_def)
next
  case (Inr m)
  show ?thesis
  proof (cases "date_toISOString (plus_now (now E (Suc (clock_reads w))) tt)")
    case (Inl e')
    with assms Inr show ?thesis
      by (intro invalid [of m e']) (auto simp: execute_catch_def Let_def read_clock_def)
  next
    case (Inr x)
    with assms \<open>message e = Inr m\<close> show ?thesis
      by (intro built [of m x]) (auto simp: execute_catch_def Let_def read_clock_def)
  qed
qed

lemma execute_catch_world:
  "execute_catch E rq tid tt e w = (r, w') \<Longrightarrow> trace w' = trace w \<and> store w' = store w"
  by (erule execute_catch_cases) simp_all

text \<open>The paths through execute: the task id, then the outcome of the try block.\<close>

lemma execute_unfold:
  assumes "execute E S rq opts w = (r, w')"
  obtains
    (try_returned) tid w1 t w3 where
      "make_task_id E rq w = (tid, w1)"
      "execute_try E S rq tid (option_saveToStorage opts) (option_ttl opts) (emit EvNew w1)
         = (Inr t, w3)"
      "r = Inr t" "trace w' = trace w3 @ [EvDispose]" "store w' = store w3"
  | (try_raised) tid w1 e w3 w4 where
      "make_task_id E rq w = (tid, w1)"
      "execute_try E S rq tid (option_saveToStorage opts) (option_ttl opts) (emit EvNew w1)
         = (Inl e, w3)"
      "execute_catch E rq tid (option_ttl opts) e w3 = (r, w4)"
      "trace w' = trace w3 @ [EvDispose]" "store w' = store w3"
proof -
  obtain tid w1 where m: "make_task_id E rq w = (tid, w1)" by force
  obtain r1 w3 where
    t: "execute_try E S rq tid (option_saveToStorage opts) (option_ttl opts) (emit EvNew w1)
          = (r1, w3)"
    by force
  show ?thesis
  proof (cases r1)
    case (Inr t1)
    with assms m t have "r = Inr t1" "w' = emit EvDispose w3"
      by (auto simp: execute_def Let_def)
    with m t Inr show ?thesis by (intro try_returned [of tid w1 t1 w3]) simp_all
  next
    case (Inl e)
    obtain r2 w4 where c: "execute_catch E rq tid (option_ttl opts) e w3 = (r2, w4)" by force
    with assms m t Inl have "r = r2" "w' = emit EvDispose w4"
      by (auto simp: execute_def Let_def)
    with m t Inl c execute_catch_world [OF c] show ?thesis
      by (intro try_raised [of tid w1 e w3 w4]) simp_all
  qed
qed

lemma execute_cases [consumes 1, case_names returned persisted caught]:
  assumes "execute E S rq opts w = (r, w')"
  obtains
    (returned) tid k res p x t where
      "tid = fst (make_task_id E rq w)" "k = clock_reads (snd (make_task_id E rq w))"
      "initialize (vm E) = None" "executeCode (vm E) (rq_code rq) = Inr (res, p)"
      "date_toISOString (plus_now (now E (Suc k)) (option_ttl opts)) = Inr x"
      "t = execute_task rq tid res p (now E k) x"
      "\<not> (option_saveToStorage opts \<and> status_of res = Paused)" "r = Inr t"
      "trace w' = trace w @ [EvNew, EvInitialize, EvExecuteCode (rq_code rq), EvDispose]"
      "store w' = store w"
  | (persisted) tid k res p x t where
      "tid = fst (make_task_id E rq w)" "k = clock_reads (snd (make_task_id E rq w))"
      "initialize (vm E) = None" "executeCode (vm E) (rq_code rq) = Inr (res, p)"
      "date_toISOString (plus_now (now E (Suc k)) (option_ttl opts)) = Inr x"
      "t = execute_task rq tid res p (now E k) x"
      "option_saveToStorage opts" "status_of res = Paused"
      "save S t (store w) = (None, store w')" "r = Inr t"
      "trace w' = trace w @ [EvNew, EvInitialize, EvExecuteCode (rq_code rq), EvSave t, EvDispose]"
  | (caught) tid k e evs w3 w4 where
      "tid = fst (make_task_id E rq w)" "k = clock_reads (snd (make_task_id E rq w))"
      "initialize (vm E) = Some e \<and> evs = [EvInitialize] \<and> store w3 = store w
         \<and> clock_reads w3 = k
       \<or> initialize (vm E) = None \<and> executeCode (vm E) (rq_code rq) = Inl e
           \<and> evs = [EvInitialize, EvExecuteCode (rq_code rq)] \<and> store w3 = store w
           \<and> clock_reads w3 = k
       \<or> (\<exists>res p. initialize (vm E) = None \<and> executeCode (vm E) (rq_code rq) = Inr (res, p)
             \<and> date_toISOString (plus_now (now E (Suc k)) (option_ttl opts)) = Inl e
             \<and> evs = [EvInitialize, EvExecuteCode (rq_code rq)] \<and> store w3 = store w
             \<and> clock_reads w3 = Suc (Suc k))
       \<or> (\<exists>res p x t. initialize (vm E) = None
             \<and> executeCode (vm E) (rq_code rq) = Inr (res, p)
             \<and> date_toISOString (plus_now (now E (Suc k)) (option_ttl opts)) = Inr x
             \<and> t = execute_task rq tid res p (now E k) x
             \<and> option_saveToStorage opts \<and> status_of res = Paused
             \<and> save S t (store w) = (Some e, store w3)
             \<and> evs = [EvInitialize, EvExecuteCode (rq_code rq), EvSave t]
             \<and> clock_reads w3 = Suc (Suc k))"
      "EvNew \<notin> set evs" "EvDispose \<notin> set evs" "\<forall>t \<in> set (saved_tasks evs). status t = Paused"
      "execute_catch E rq tid (option_ttl opts) e w3 = (r, w4)"
      "trace w' = trace w @ [EvNew] @ evs @ [EvDispose]" "store w' = store w3"
  using assms
proof (cases rule: execute_unfold)
  case (try_returned tid w1 t w3)
  note mw = make_task_id_world [OF try_returned(1)]
  have tid: "tid = fst (make_task_id E rq w)"
    and k: "clock_reads w1 = clock_reads (snd (make_task_id E rq w))"
    using try_returned(1) by simp_all
  from try_returned(2) show ?thesis
  proof (cases rule: execute_try_cases)
    case (plain res p x t')
    with tid k mw try_returned(3-5) show ?thesis
      by (intro returned [of tid "clock_reads w1" res p x t]) simp_all
  next
    case (saved res p x t')
    with tid k mw try_returned(3-5) show ?thesis
      by (intro persisted [of tid "clock_reads w1" res p x t]) simp_all
  qed simp_all
next
  case (try_raised tid w1 e w3 w4)
  note mw = make_task_id_world [OF try_raised(1)]
  have tid: "tid = fst (make_task_id E rq w)"
    and k: "clock_reads w1 = clock_reads (snd (make_task_id E rq w))"
    using try_raised(1) by simp_all
  from try_raised(2) show ?thesis
  proof (cases rule: execute_try_cases)
    case (init_fail e')
    with tid k mw try_raised(3-5) show ?thesis
      by (intro caught [of tid "clock_reads w1" e "[EvInitialize]" w3 w4]) simp_all
  next
    case (exec_fail e')
    with tid k mw try_raised(3-5) show ?thesis
      by (intro caught [of tid "clock_reads w1" e
            "[EvInitialize, EvExecuteCode (rq_code rq)]" w3 w4]) simp_all
  next
    case (expiry_fail res p e')
    with tid k mw try_raised(3-5) show ?thesis
      by (intro caught [of tid "clock_reads w1" e
            "[EvInitialize, EvExecuteCode (rq_code rq)]" w3 w4]) simp_all
  next
    case (save_fail res p x t e')
    with tid k mw try_raised(3-5) show ?thesis
      by (intro caught [of tid "clock_reads w1" e
            "[EvInitialize, EvExecuteCode (rq_code rq), EvSave t]" w3 w4]) auto
  qed simp_all
qed

subsection \<open>The paths through the try block of resume\<close>

lemma resume_try_cases
  [consumes 1, case_names init_fail response_fail engine_fail expiry_fail
     saved save_fail deleted delete_fail]:
  assumes "resume_try E S rr st w = (r, w')"
  obtains
    (init_fail) e where
      "initialize (vm E) = Some e" "r = Inl e"
      "trace w' = trace w @ [EvInitialize]" "store w' = store w"
      "clock_reads w' = clock_reads w"
  | (response_fail) e where
      "initialize (vm E) = None" "response_value (fetchResponse rr) = Inl e" "r = Inl e"
      "trace w' = trace w @ [EvInitialize]" "store w' = store w"
      "clock_reads w' = clock_reads w"
  | (engine_fail) a e where
      "initialize (vm E) = None" "response_value (fetchResponse rr) = Inr a"
      "resumeExecution (vm E) (restored_paused E rr st) (rq_vmState rr) a = Inl e" "r = Inl e"
      "trace w' = trace w @ [EvInitialize,
          EvResumeExecution (restored_paused E rr st) (rq_vmState rr) a]"
      "store w' = store w" "clock_reads w' = clock_reads w"
  | (expiry_fail) a res p e where
      "initialize (vm E) = None" "response_value (fetchResponse rr) = Inr a"
      "resumeExecution (vm E) (restored_paused E rr st) (rq_vmState rr) a = Inr (res, p)"
      "resume_expiry (now E (Suc (clock_reads w))) = Inl e" "r = Inl e"
      "trace w' = trace w @ [EvInitialize,
          EvResumeExecution (restored_paused E rr st) (rq_vmState rr) a]"
      "store w' = store w" "clock_reads w' = Suc (Suc (clock_reads w))"
  | (saved) a res p x t where
      "initialize (vm E) = None" "response_value (fetchResponse rr) = Inr a"
      "resumeExecution (vm E) (restored_paused E rr st) (rq_vmState rr) a = Inr (res, p)"
      "resume_expiry (now E (Suc (clock_reads w))) = Inr x"
      "t = resume_task rr st res p (now E (clock_reads w)) x"
      "status_of res = Paused" "save S t (store w) = (None, store w')" "r = Inr t"
      "trace w' = trace w @ [EvInitialize,
          EvResumeExecution (restored_paused E rr st) (rq_vmState rr) a, EvSave t]"
  | (save_fail) a res p x t e where
      "initialize (vm E) = None" "response_value (fetchResponse rr) = Inr a"
      "resumeExecution (vm E) (restored_paused E rr st) (rq_vmState rr) a = Inr (res, p)"
      "resume_expiry (now E (Suc (clock_reads w))) = Inr x"
      "t = resume_task rr st res p (now E (clock_reads w)) x"
      "status_of res = Paused" "save S t (store w) = (Some e, store w')" "r = Inl e"
      "trace w' = trace w @ [EvInitialize,
          EvResumeExecution (restored_paused E rr st) (rq_vmState rr) a, EvSave t]"
      "clock_reads w' = Suc (Suc (clock_reads w))"
  | (deleted) a res p x t where
      "initialize (vm E) = None" "response_value (fetchResponse rr) = Inr a"
      "resumeExecution (vm E) (restored_paused E rr st) (rq_vmState rr) a = Inr (res, p)"
      "resume_expiry (now E (Suc (clock_reads w))) = Inr x"
      "t = resume_task rr st res p (now E (clock_reads w)) x"
      "status_of res \<noteq> Paused" "delete S (taskId rr) (store w) = (None, store w')" "r = Inr t"
      "trace w' = trace w @ [EvInitialize,
          EvResumeExecution (restored_paused E rr st) (rq_vmState rr) a, EvDelete (taskId rr)]"
  | (delete_fail) a res p x e where
      "initialize (vm E) = None" "response_value (fetchResponse rr) = Inr a"
      "resumeExecution (vm E) (restored_paused E rr st) (rq_vmState rr) a = Inr (res, p)"
      "resume_expiry (now E (Suc (clock_reads w))) = Inr x"
      "status_of res \<noteq> Paused" "delete S (taskId rr) (store w) = (Some e, store w')" "r = Inl e"
      "trace w' = trace w @ [EvInitialize,
          EvResumeExecution (restored_paused E rr st) (rq_vmState rr) a, EvDelete (taskId rr)]"
      "clock_reads w' = Suc (Suc (clock_reads w))"
proof (cases "initialize (vm E)")
  case (Some e)
  with assms show ?thesis by (intro init_fail [of e]) (auto simp: resume_try_def Let_def)
next
  case None
  note init = this
  show ?thesis
  proof (cases "response_value (fetchResponse rr)")
    case (Inl e)
    with assms init show ?thesis
      by (intro response_fail [of e]) (auto simp: resume_try_def Let_def)
  next
    case (Inr a)
    note resp = this
    show ?thesis
    proof (cases "resumeExecution (vm E) (restored_paused E rr st) (rq_vmState rr) a")
      case (Inl e)
      with assms init resp show ?thesis
        by (intro engine_fail [of a e]) (auto simp: resume_try_def Let_def)
    next
      case (Inr rp)
      obtain res p where rp: "rp = (res, p)" by (cases rp)
      with Inr have run:
        "resumeExecution (vm E) (restored_paused E rr st) (rq_vmState rr) a = Inr (res, p)"
        by simp
      define w4 where
        "w4 = (emit (EvResumeExecution (restored_paused E rr st) (rq_vmState rr) a)
                 (emit EvInitialize w))\<lparr>clock_reads := Suc (Suc (clock_reads w))\<rparr>"
      have w4: "trace w4 = trace w @ [EvInitialize,
          EvResumeExecution (restored_paused E rr st) (rq_vmState rr) a]"
        "store w4 = store w" "clock_reads w4 = Suc (Suc (clock_reads w))"
        by (simp_all add: w4_def)
      show ?thesis
      proof (cases "resume_expiry (now E (Suc (clock_reads w)))")
        case (Inl e)
        with assms init resp run have "r = Inl e" "w' = w4"
          by (auto simp: resume_try_def Let_def read_clock_def w4_def)
        with init resp run Inl w4 show ?thesis
          by (intro expiry_fail [of a res p e]) simp_all
      next
        case (Inr x)
        note date = this
        define t where "t = resume_task rr st res p (now E (clock_reads w)) x"
        have body1: "status_of res = Paused \<Longrightarrow> storage_save S t w4 = (y, w5) \<Longrightarrow>
            resume_try E S rr st w = ((case y of Some e \<Rightarrow> Inl e | None \<Rightarrow> Inr t), w5)"
          for y w5
          using init resp run date
          by (auto simp: resume_try_def Let_def read_clock_def t_def w4_def split: option.splits)
        have body2: "status_of res \<noteq> Paused \<Longrightarrow> storage_delete S (taskId rr) w4 = (y, w5) \<Longrightarrow>
            resume_try E S rr st w = ((case y of Some e \<Rightarrow> Inl e | None \<Rightarrow> Inr t), w5)"
          for y w5
          using init resp run date
          by (auto simp: resume_try_def Let_def read_clock_def t_def w4_def
              dest: status_of_cases split: option.splits)
        show ?thesis
        proof (cases "status_of res = Paused")
          case True
          obtain y w5 where s: "storage_save S t w4 = (y, w5)" by force
          from storage_save_world [OF s] w4
          have w5: "trace w5 = trace w @ [EvInitialize,
              EvResumeExecution (restored_paused E rr st) (rq_vmState rr) a, EvSave t]"
            "save S t (store w) = (y, store w5)" "clock_reads w5 = Suc (Suc (clock_reads w))"
            by simp_all
          show ?thesis
          proof (cases y)
            case None
            with assms body1 [OF True s] have "r = Inr t" "w' = w5" by simp_all
            with init resp run date True w5 None show ?thesis
              by (intro saved [of a res p x t]) (simp_all add: t_def)
          next
            case (Some e)
            with assms body1 [OF True s] have "r = Inl e" "w' = w5" by simp_all
            with init resp run date True w5 Some show ?thesis
              by (intro save_fail [of a res p x t e]) (simp_all add: t_def)
          qed
        next
          case False
          obtain y w5 where s: "storage_delete S (taskId rr) w4 = (y, w5)" by force
          from storage_delete_world [OF s] w4
          have w5: "trace w5 = trace w @ [EvInitialize,
              EvResumeExecution (restored_paused E rr st) (rq_vmState rr) a,
              EvDelete (taskId rr)]"
            "delete S (taskId rr) (store w) = (y, store w5)"
            "clock_reads w5 = Suc (Suc (clock_reads w))"
            by simp_all
          show ?thesis
          proof (cases y)
            case None
            with assms body2 [OF False s] have "r = Inr t" "w' = w5" by simp_all
            with init resp run date False w5 None show ?thesis
              by (intro deleted [of a res p x t]) (simp_all add: t_def)
          next
            case (Some e)
            with assms body2 [OF False s] have "r = Inl e" "w' = w5" by simp_all
            with init resp run date False w5 Some show ?thesis
              by (intro delete_fail [of a res p x e]) simp_all
          qed
        qed
      qed
    qed
  qed
qed

subsection \<open>The paths through the catch block of resume\<close>

lemma resume_catch_cases
  [consumes 1, case_names unreadable invalid removed remove_failed]:
  assumes "resume_catch E S rr st e w = (r, w')"
  obtains
    (unreadable) e' where
      "message e = Inl e'" "r = Inl e'" "trace w' = trace w" "store w' = store w"
  | (invalid) m e' where
      "message e = Inr m" "resume_expiry (now E (Suc (clock_reads w))) = Inl e'" "r = Inl e'"
      "trace w' = trace w" "store w' = store w"
  | (removed) m x where
      "message e = Inr m" "resume_expiry (now E (Suc (clock_reads w))) = Inr x"
      "delete S (taskId rr) (store w) = (None, store w')"
      "r = Inr (resume_error_task rr st m (now E (clock_reads w)) x)"
      "trace w' = trace w @ [EvDelete (taskId rr)]"
  | (remove_failed) m x e' where
      "message e = Inr m" "resume_expiry (now E (Suc (clock_reads w))) = Inr x"
      "delete S (taskId rr) (store w) = (Some e', store w')" "r = Inl e'"
      "trace w' = trace w @ [EvDelete (taskId rr)]"
proof (cases "message e")
  case (Inl e')
  with assms show ?thesis by (intro unreadable [of e']) (auto simp: resume_catch_def)
next
  case (Inr m)
  note msg = this
  show ?thesis
  proof (cases "resume_expiry (now E (Suc (clock_reads w)))")
    case (Inl e')
    with assms msg show ?thesis
      by (intro invalid [of m e']) (auto simp: resume_catch_def Let_def read_clock_def)
  next
    case (Inr x)
    define w2 where "w2 = w\<lparr>clock_reads := Suc (Suc (clock_reads w))\<rparr>"
    obtain y w3 where d: "storage_delete S (taskId rr) w2 = (y, w3)" by force
    from assms msg Inr d have res: "w' = w3"
      "r = (case y of
              Some e' \<Rightarrow> Inl e'
            | None \<Rightarrow> Inr (resume_error_task rr st m (now E (clock_reads w)) x))"
      by (auto simp: resume_catch_def Let_def read_clock_def w2_def split: option.splits)
    from storage_delete_world [OF d]
    have w3: "trace w3 = trace w @ [EvDelete (taskId rr)]"
      "delete S (taskId rr) (store w) = (y, store w3)"
      by (simp_all add: w2_def)
    show ?thesis
    proof (cases y)
      case None
      with res w3 msg Inr show ?thesis by (intro removed [of m x]) simp_all
    next
      case (Some e')
      with res w3 msg Inr show ?thesis by (intro remove_failed [of m x e']) simp_all
    qed
  qed
qed

lemma resume_catch_world:
  assumes "resume_catch E S rr st e w = (r, w')"
  shows "(trace w' = trace w \<and> store w' = store w \<and> (\<exists>e'. r = Inl e'))
       \<or> (trace w' = trace w @ [EvDelete (taskId rr)]
           \<and> fst (delete S (taskId rr) (store w)) = (case r of Inl e' \<Rightarrow> Some e' | Inr t \<Rightarrow> None)
           \<and> store w' = snd (delete S (taskId rr) (store w)))"
  using assms by (cases rule: resume_catch_cases) simp_all

lemma resume_body_unfold:
  assumes "resume_body E S rr st w = (r, w')"
  obtains
    (try_returned) t w2 where
      "resume_try E S rr st (emit EvNew w) = (Inr t, w2)" "r = Inr t"
      "trace w' = trace w2 @ [EvDispose]" "store w' = store w2"
  | (try_raised) e w2 w3 where
      "resume_try E S rr st (emit EvNew w) = (Inl e, w2)"
      "resume_catch E S rr st e w2 = (r, w3)"
      "trace w' = trace w3 @ [EvDispose]" "store w' = store w3"
proof -
  obtain r1 w2 where t: "resume_try E S rr st (emit EvNew w) = (r1, w2)" by force
  show ?thesis
  proof (cases r1)
    case (Inr t1)
    with assms t have "r = Inr t1" "w' = emit EvDispose w2"
      by (auto simp: resume_body_def Let_def)
    with t Inr show ?thesis by (intro try_returned [of t1 w2]) simp_all
  next
    case (Inl e)
    obtain r2 w3 where c: "resume_catch E S rr st e w2 = (r2, w3)" by force
    with assms t Inl have res: "r = r2" "w' = emit EvDispose w3"
      by (auto simp: resume_body_def Let_def)
    with t Inl c show ?thesis by (intro try_raised [of e w2 w3]) simp_all
  qed
qed

lemma resume_unfold:
  assumes "resume E S rr w = (r, w')"
  obtains
    (load_fail) e where
      "load S (taskId rr) (store w) = (Inl e, store w')" "r = Inl e"
      "trace w' = trace w @ [EvLoad (taskId rr)]"
  | (absent)
      "load S (taskId rr) (store w) = (Inr None, store w')" "r = Inl (not_found (taskId rr))"
      "trace w' = trace w @ [EvLoad (taskId rr)]"
  | (found) st w1 where
      "load S (taskId rr) (store w) = (Inr (Some st), store w1)"
      "trace w1 = trace w @ [EvLoad (taskId rr)]" "clock_reads w1 = clock_reads w"
      "resume_body E S rr st w1 = (r, w')"
proof -
  obtain y w1 where l: "storage_load S (taskId rr) w = (y, w1)" by force
  note lw = storage_load_world [OF l]
  show ?thesis
  proof (cases y)
    case (Inl e)
    with assms l have "r = Inl e" "w' = w1" by (auto simp: resume_def)
    with lw Inl show ?thesis by (intro load_fail [of e]) simp_all
  next
    case (Inr ot)
    show ?thesis
    proof (cases ot)
      case None
      with assms l Inr have "r = Inl (not_found (taskId rr))" "w' = w1"
        by (auto simp: resume_def)
      with lw Inr None show ?thesis by (intro absent) simp_all
    next
      case (Some st)
      with assms l Inr have "resume_body E S rr st w1 = (r, w')" by (auto simp: resume_def)
      with lw Inr Some show ?thesis by (intro found [of st w1]) simp_all
    qed
  qed
qed

lemma resume_cases
  [consumes 1, case_names load_failed task_absent resumed_paused resumed_done caught]:
  assumes "resume E S rr w = (r, w')"
  obtains
    (load_failed) e where
      "load S (taskId rr) (store w) = (Inl e, store w')" "r = Inl e"
      "trace w' = trace w @ [EvLoad (taskId rr)]"
  | (task_absent)
      "load S (taskId rr) (store w) = (Inr None, store w')" "r = Inl (not_found (taskId rr))"
      "trace w' = trace w @ [EvLoad (taskId rr)]"
  | (resumed_paused) st s1 a res p x t where
      "load S (taskId rr) (store w) = (Inr (Some st), s1)"
      "initialize (vm E) = None" "response_value (fetchResponse rr) = Inr a"
      "resumeExecution (vm E) (restored_paused E rr st) (rq_vmState rr) a = Inr (res, p)"
      "resume_expiry (now E (Suc (clock_reads w))) = Inr x"
      "t = resume_task rr st res p (now E (clock_reads w)) x"
      "status_of res = Paused" "save S t s1 = (None, store w')" "r = Inr t"
      "trace w' = trace w @ [EvLoad (taskId rr), EvNew, EvInitialize,
          EvResumeExecution (restored_paused E rr st) (rq_vmState rr) a, EvSave t, EvDispose]"
  | (resumed_done) st s1 a res p x t where
      "load S (taskId rr) (store w) = (Inr (Some st), s1)"
      "initialize (vm E) = None" "response_value (fetchResponse rr) = Inr a"
      "resumeExecution (vm E) (restored_paused E rr st) (rq_vmState rr) a = Inr (res, p)"
      "resume_expiry (now E (Suc (clock_reads w))) = Inr x"
      "t = resume_task rr st res p (now E (clock_reads w)) x"
      "status_of res \<noteq> Paused" "delete S (taskId rr) s1 = (None, store w')" "r = Inr t"
      "trace w' = trace w @ [EvLoad (taskId rr), EvNew, EvInitialize,
          EvResumeExecution (restored_paused E rr st) (rq_vmState rr) a,
          EvDelete (taskId rr), EvDispose]"
  | (caught) st s1 e evs w2 w3 where
      "load S (taskId rr) (store w) = (Inr (Some st), s1)"
      "initialize (vm E) = Some e \<and> evs = [] \<and> store w2 = s1
         \<and> clock_reads w2 = clock_reads w
       \<or> initialize (vm E) = None \<and> response_value (fetchResponse rr) = Inl e
           \<and> evs = [] \<and> store w2 = s1 \<and> clock_reads w2 = clock_reads w
       \<or> (\<exists>a. initialize (vm E) = None \<and> response_value (fetchResponse rr) = Inr a
             \<and> resumeExecution (vm E) (restored_paused E rr st) (rq_vmState rr) a = Inl e
             \<and> evs = [EvResumeExecution (restored_paused E rr st) (rq_vmState rr) a]
             \<and> store w2 = s1 \<and> clock_reads w2 = clock_reads w)
       \<or> (\<exists>a res p. initialize (vm E) = None \<and> response_value (fetchResponse rr) = Inr a
             \<and> resumeExecution (vm E) (restored_paused E rr st) (rq_vmState rr) a = Inr (res, p)
             \<and> resume_expiry (now E (Suc (clock_reads w))) = Inl e
             \<and> evs = [EvResumeExecution (restored_paused E rr st) (rq_vmState rr) a]
             \<and> store w2 = s1 \<and> clock_reads w2 = Suc (Suc (clock_reads w)))
       \<or> (\<exists>a res p x t. initialize (vm E) = None \<and> response_value (fetchResponse rr) = Inr a
             \<and> resumeExecution (vm E) (restored_paused E rr st) (rq_vmState rr) a = Inr (res, p)
             \<and> resume_expiry (now E (Suc (clock_reads w))) = Inr x
             \<and> t = resume_task rr st res p (now E (clock_reads w)) x
             \<and> status_of res = Paused \<and> save S t s1 = (Some e, store w2)
             \<and> evs = [EvResumeExecution (restored_paused E rr st) (rq_vmState rr) a, EvSave t]
             \<and> clock_reads w2 = Suc (Suc (clock_reads w)))
       \<or> (\<exists>a res p x. initialize (vm E) = None \<and> response_value (fetchResponse rr) = Inr a
             \<and> resumeExecution (vm E) (restored_paused E rr st) (rq_vmState rr) a = Inr (res, p)
             \<and> resume_expiry (now E (Suc (clock_reads w))) = Inr x
             \<and> status_of res \<noteq> Paused \<and> delete S (taskId rr) s1 = (Some e, store w2)
             \<and> evs = [EvResumeExecution (restored_paused E rr st) (rq_vmState rr) a,
                        EvDelete (taskId rr)]
             \<and> clock_reads w2 = Suc (Suc (clock_reads w)))"
      "EvNew \<notin> set evs" "EvDispose \<notin> set evs" "\<forall>t \<in> set (saved_tasks evs). status t = Paused"
      "resume_catch E S rr st e w2 = (r, w3)"
      "trace w2 = trace w @ [EvLoad (taskId rr), EvNew, EvInitialize] @ evs"
      "trace w' = trace w3 @ [EvDispose]" "store w' = store w3"
  using assms
proof (cases rule: resume_unfold)
  case (load_fail e)
  then show ?thesis by (intro load_failed [of e]) simp_all
next
  case absent
  then show ?thesis by (intro task_absent) simp_all
next
  case (found st w1)
  note ld = found(1) and tw1 = found(2) and cw1 = found(3)
  from found(4) show ?thesis
  proof (cases rule: resume_body_unfold)
    case (try_returned t w2)
    note r = try_returned(2) and tw' = try_returned(3) and sw' = try_returned(4)
    from try_returned(1) show ?thesis
    proof (cases rule: resume_try_cases)
      case (saved a res p x t')
      with ld tw1 cw1 r tw' sw' show ?thesis
        by (intro resumed_paused [of st "store w1" a res p x t]) simp_all
    next
      case (deleted a res p x t')
      with ld tw1 cw1 r tw' sw' show ?thesis
        by (intro resumed_done [of st "store w1" a res p x t]) simp_all
    qed simp_all
  next
    case (try_raised e w2 w3)
    note ct = try_raised(2) and tw' = try_raised(3) and sw' = try_raised(4)
    from try_raised(1) show ?thesis
    proof (cases rule: resume_try_cases)
      case init_fail
      with ld tw1 cw1 ct tw' sw' show ?thesis
        by (intro caught [of st "store w1" e "[]" w2 w3]) simp_all
    next
      case response_fail
      with ld tw1 cw1 ct tw' sw' show ?thesis
        by (intro caught [of st "store w1" e "[]" w2 w3]) simp_all
    next
      case (engine_fail a e')
      with ld tw1 cw1 ct tw' sw' show ?thesis
        by (intro caught [of st "store w1" e
              "[EvResumeExecution (restored_paused E rr st) (rq_vmState rr) a]" w2 w3])
           simp_all
    next
      case (expiry_fail a res p e')
      with ld tw1 cw1 ct tw' sw' show ?thesis
        by (intro caught [of st "store w1" e
              "[EvResumeExecution (restored_paused E rr st) (rq_vmState rr) a]" w2 w3])
           simp_all
    next
      case (save_fail a res p x t e')
      with ld tw1 cw1 ct tw' sw' show ?thesis
        by (intro caught [of st "store w1" e
              "[EvResumeExecution (restored_paused E rr st) (rq_vmState rr) a, EvSave t]"
              w2 w3]) auto
    next
      case (delete_fail a res p x e')
      with ld tw1 cw1 ct tw' sw' show ?thesis
        by (intro caught [of st "store w1" e
              "[EvResumeExecution (restored_paused E rr st) (rq_vmState rr) a,
                EvDelete (taskId rr)]" w2 w3]) auto
    qed simp_all
  qed
qed

subsection \<open>Evaluating the examples\<close>

lemmas run_defs =
  execute_def execute_try_def execute_catch_def execute_task_def execute_error_task_def
  option_saveToStorage_def option_ttl_def make_task_id_def status_of_def
  resume_def resume_body_def resume_try_def resume_catch_def resume_task_def
  resume_error_task_def resume_expiry_def restored_paused_def response_value_def
  js_or_def str_or_def not_found_def getTask_def deleteTask_def
  storage_save_def storage_load_def storage_delete_def read_clock_def read_random_def
  emit_def emitted_def InMemoryStorage_def CustomStorage_def Let_def
  to_integer_def invalid_time_def read_of_nullish_def

lemmas fixture_defs =
  test_env_def still_env_def backward_env_def fetching_engine_def throwing_engine_def
  null_throwing_engine_def pause_result_def complete_result_def
  checkpoint_result_def checkpointing_engine_def silent_engine_def
  empty_world_def test_request_def default_options_def ttl_options_def test_resume_def
  save_failing_storage_def read_only_storage_def repausing_engine_def

lemma paused_world_eq:
  "paused_world =
     \<lparr> store = [(''t2'', stored_task)],
       clock_reads = 2, random_reads = 0,
       trace = [EvNew, EvInitialize, EvExecuteCode ''const u = fetch(1); u'',
                EvSave stored_task,
                EvDispose] \<rparr>"
  by (simp add: paused_world_def stored_task_def run_defs fixture_defs)

subsection \<open>Dates\<close>


lemma floor_rat_numeral [simp]:
  "\<lfloor>numeral a / numeral b :: rat\<rfloor> = numeral a div numeral b"
  using floor_divide_of_int_eq [where ?'a = rat, of "numeral a" "numeral b"] by simp


lemma date_toISOString_Inr:
  assumes "date_toISOString v = Inr x"
  obtains q where "v = Finite q" "\<bar>q\<bar> \<le> 8640000000000000" "x = to_integer q"
  using assms by (cases v) (auto split: if_splits)

lemma date_toISOString_Inl: "date_toISOString v = Inl e \<Longrightarrow> e = invalid_time"
  by (cases v) (auto split: if_splits)


lemma resume_expiry_Inl: "resume_expiry n = Inl e \<Longrightarrow> e = invalid_time"
  unfolding resume_expiry_def by (rule date_toISOString_Inl)

subsection \<open>What the catch blocks return\<close>

lemma execute_catch_status:
  "execute_catch E rq tid tt e w = (Inr t, w') \<Longrightarrow> status t = Error"
  by (erule execute_catch_cases) (simp_all add: execute_error_task_def)

lemma resume_catch_status:
  "resume_catch E S rr st e w = (Inr t, w') \<Longrightarrow> status t = Error"
  by (erule resume_catch_cases) (simp_all add: resume_error_task_def)

subsection \<open>Engine lifecycle and storage writes along every path\<close>

lemma execute_lifecycle:
  assumes "execute E S rq opts w = (r, w')"
  shows "count_list (emitted w w') EvNew = 1 \<and> count_list (emitted w w') EvDispose = 1
         \<and> last (trace w') = EvDispose"
  using assms
proof (cases rule: execute_cases)
  case (caught tid k e evs w3 w4)
  from caught(8) have "emitted w w' = [EvNew] @ evs @ [EvDispose]"
    by (rule emitted_append)
  with caught(4,5,8) show ?thesis by (simp add: count_list_append count_list_absent)
qed (simp_all add: emitted_def)

lemma resume_lifecycle:
  assumes "resume E S rr w = (r, w')"
  shows "count_list (emitted w w') EvNew = (case fst (load S (taskId rr) (store w)) of
             Inr (Some st) \<Rightarrow> 1 | _ \<Rightarrow> 0)
         \<and> count_list (emitted w w') EvDispose = (case fst (load S (taskId rr) (store w)) of
             Inr (Some st) \<Rightarrow> 1 | _ \<Rightarrow> 0)
         \<and> (\<forall>st. fst (load S (taskId rr) (store w)) = Inr (Some st) \<longrightarrow> last (trace w') = EvDispose)"
  using assms
proof (cases rule: resume_cases)
  case (caught st s1 e evs w2 w3)
  from resume_catch_world [OF caught(6)]
  obtain ds where ds: "trace w3 = trace w2 @ ds" "ds = [] \<or> ds = [EvDelete (taskId rr)]"
    by auto
  with caught(7,8)
  have "trace w' = trace w @ ([EvLoad (taskId rr), EvNew, EvInitialize] @ evs @ ds @ [EvDispose])"
    by simp
  then have "emitted w w' = [EvLoad (taskId rr), EvNew, EvInitialize] @ evs @ ds @ [EvDispose]"
    by (rule emitted_append)
  with caught(1,3,4,8) ds(2) show ?thesis
    by (auto simp: count_list_append count_list_absent)
qed (simp_all add: emitted_def)

lemma execute_saved:
  assumes "execute E S rq opts w = (r, w')"
  shows "(\<forall>t \<in> set (saved_tasks (emitted w w')). status t = Paused)
      \<and> (saved_tasks (emitted w w') \<noteq> [] \<longleftrightarrow>
           option_saveToStorage opts \<and> initialize (vm E) = None
           \<and> (\<exists>res p. executeCode (vm E) (rq_code rq) = Inr (res, p) \<and> status_of res = Paused)
           \<and> (\<exists>x. date_toISOString
                     (plus_now (now E (Suc (clock_reads (snd (make_task_id E rq w)))))
                        (option_ttl opts)) = Inr x))
      \<and> (\<forall>t. r = Inr t \<and> status t = Paused \<longrightarrow>
           saved_tasks (emitted w w') = (if option_saveToStorage opts then [t] else []))
      \<and> (\<forall>t. r = Inr t \<and> status t \<noteq> Paused \<longrightarrow> t \<notin> set (saved_tasks (emitted w w')))"
  using assms
proof (cases rule: execute_cases)
  case (returned tid k res p x t)
  from returned(9) have "emitted w w' = [EvNew, EvInitialize, EvExecuteCode (rq_code rq), EvDispose]"
    by (rule emitted_append)
  with returned(2-8) show ?thesis by auto
next
  case (persisted tid k res p x t)
  from persisted(11)
  have "emitted w w' = [EvNew, EvInitialize, EvExecuteCode (rq_code rq), EvSave t, EvDispose]"
    by (rule emitted_append)
  with persisted(2-8,10) show ?thesis by auto
next
  case (caught tid k e evs w3 w4)
  from caught(8) have "emitted w w' = [EvNew] @ evs @ [EvDispose]"
    by (rule emitted_append)
  then have s: "saved_tasks (emitted w w') = saved_tasks evs"
    by (simp add: saved_tasks_append)
  have st: "status t = Error" if "r = Inr t" for t
    using caught(7) that by (auto dest: execute_catch_status)
  from caught(2,3) have iff: "saved_tasks evs \<noteq> [] \<longleftrightarrow>
           option_saveToStorage opts \<and> initialize (vm E) = None
           \<and> (\<exists>res p. executeCode (vm E) (rq_code rq) = Inr (res, p) \<and> status_of res = Paused)
           \<and> (\<exists>x. date_toISOString
                     (plus_now (now E (Suc (clock_reads (snd (make_task_id E rq w)))))
                        (option_ttl opts)) = Inr x)"
    by auto
  from caught(6) st have "\<forall>t. r = Inr t \<and> status t \<noteq> Paused \<longrightarrow> t \<notin> set (saved_tasks evs)"
    by auto
  with s iff caught(6) st show ?thesis by auto
qed

lemma resume_saved:
  assumes "resume E S rr w = (r, w')"
  shows "(\<forall>t \<in> set (saved_tasks (emitted w w')). status t = Paused)
      \<and> (\<forall>t. r = Inr t \<and> status t = Paused \<longrightarrow>
            saved_tasks (emitted w w') = [t] \<and> EvDelete (taskId rr) \<notin> set (emitted w w'))
      \<and> (\<forall>t. r = Inr t \<and> status t \<noteq> Paused \<longrightarrow> EvDelete (taskId rr) \<in> set (emitted w w'))"
  using assms
proof (cases rule: resume_cases)
  case (load_failed e)
  from load_failed(3) have "emitted w w' = [EvLoad (taskId rr)]" by (rule emitted_append)
  with load_failed(2) show ?thesis by simp
next
  case task_absent
  from task_absent(3) have "emitted w w' = [EvLoad (taskId rr)]" by (rule emitted_append)
  with task_absent(2) show ?thesis by simp
next
  case (resumed_paused st s1 a res p x t)
  from resumed_paused(10) have "emitted w w' = [EvLoad (taskId rr), EvNew, EvInitialize,
          EvResumeExecution (restored_paused E rr st) (rq_vmState rr) a, EvSave t, EvDispose]"
    by (rule emitted_append)
  with resumed_paused(6,7,9) show ?thesis by simp
next
  case (resumed_done st s1 a res p x t)
  from resumed_done(10) have "emitted w w' = [EvLoad (taskId rr), EvNew, EvInitialize,
          EvResumeExecution (restored_paused E rr st) (rq_vmState rr) a,
          EvDelete (taskId rr), EvDispose]"
    by (rule emitted_append)
  with resumed_done(6,7,9) show ?thesis by simp
next
  case (caught st s1 e evs w2 w3)
  have st: "status t = Error" if "r = Inr t" for t
    using caught(6) that by (auto dest: resume_catch_status)
  from resume_catch_world [OF caught(6)]
  obtain ds where ds: "trace w3 = trace w2 @ ds" "ds = [] \<or> ds = [EvDelete (taskId rr)]"
    "(\<exists>t. r = Inr t) \<longrightarrow> ds = [EvDelete (taskId rr)]"
    by (auto split: sum.splits)
  with caught(7,8)
  have "trace w' = trace w @ ([EvLoad (taskId rr), EvNew, EvInitialize] @ evs @ ds @ [EvDispose])"
    by simp
  then have em: "emitted w w' = [EvLoad (taskId rr), EvNew, EvInitialize] @ evs @ ds @ [EvDispose]"
    by (rule emitted_append)
  from ds(2) have "saved_tasks (emitted w w') = saved_tasks evs"
    unfolding em by (auto simp: saved_tasks_append)
  with caught(5) st ds(3) em show ?thesis by auto
qed

section \<open>C1: only paused tasks are written to storage\<close>

text \<open>
  Claim C1.  Every task that \<^verbatim>\<open>execute\<close> or \<^verbatim>\<open>resume\<close> hands to the adapter's
  \<^verbatim>\<open>save\<close> has status \<^verbatim>\<open>paused\<close>.  \<^verbatim>\<open>execute\<close> calls \<^verbatim>\<open>save\<close> exactly when
  \<^verbatim>\<open>saveToStorage\<close> holds and the try block builds a task whose status is \<^verbatim>\<open>paused\<close>:
  the engine's result maps to \<^verbatim>\<open>paused\<close> and the expiry of the task literal renders.
  A returned paused task is the one task saved, a returned completed or error task is
  never saved.  \<^verbatim>\<open>resume\<close> saves the snapshot it returns when that is paused (and
  deletes nothing), and calls \<^verbatim>\<open>delete\<close> on the task id when the snapshot it returns
  is completed or error.
\<close>

theorem only_paused_tasks_saved:
  "(execute E S rq opts w = (r, w') \<longrightarrow>
      (\<forall>t \<in> set (saved_tasks (emitted w w')). status t = Paused)
      \<and> (saved_tasks (emitted w w') \<noteq> [] \<longleftrightarrow>
           option_saveToStorage opts \<and> initialize (vm E) = None
           \<and> (\<exists>res p. executeCode (vm E) (rq_code rq) = Inr (res, p) \<and> status_of res = Paused)
           \<and> (\<exists>x. date_toISOString
                     (plus_now (now E (Suc (clock_reads (snd (make_task_id E rq w)))))
                        (option_ttl opts)) = Inr x))
      \<and> (\<forall>t. r = Inr t \<and> status t = Paused \<longrightarrow>
           saved_tasks (emitted w w') = (if option_saveToStorage opts then [t] else []))
      \<and> (\<forall>t. r = Inr t \<and> status t \<noteq> Paused \<longrightarrow> t \<notin> set (saved_tasks (emitted w w'))))
   \<and> (resume E S rr w = (r, w') \<longrightarrow>
      (\<forall>t \<in> set (saved_tasks (emitted w w')). status t = Paused)
      \<and> (\<forall>t. r = Inr t \<and> status t = Paused \<longrightarrow>
            saved_tasks (emitted w w') = [t] \<and> EvDelete (taskId rr) \<notin> set (emitted w w'))
      \<and> (\<forall>t. r = Inr t \<and> status t \<noteq> Paused \<longrightarrow> EvDelete (taskId rr) \<in> set (emitted w w')))"
  by (rule conjI; rule impI; erule execute_saved resume_saved)

theorem only_paused_tasks_saved_witness:
  "execute (test_env fetching_engine) InMemoryStorage (test_request ''t2'') default_options
     empty_world = (Inr stored_task, paused_world)
   \<and> status stored_task = Paused
   \<and> saved_tasks (emitted empty_world paused_world) = [stored_task]
   \<and> fst (resume (test_env fetching_engine) InMemoryStorage
            (test_resume ''t2'' (JObj [(''data'', JNum 5)])) paused_world)
       = Inr (resume_task (test_resume ''t2'' (JObj [(''data'', JNum 5)])) stored_task
               (complete_result (JNum 5)) JNull 1002 7201003)
   \<and> EvDelete ''t2'' \<in> set (emitted paused_world
         (snd (resume (test_env fetching_engine) InMemoryStorage
                (test_resume ''t2'' (JObj [(''data'', JNum 5)])) paused_world)))"
proof -
  let ?E = "test_env fetching_engine"
  let ?rr = "test_resume ''t2'' (JObj [(''data'', JNum 5)])"
  let ?t = "resume_task ?rr stored_task (complete_result (JNum 5)) JNull 1002 7201003"
  have x: "execute ?E InMemoryStorage (test_request ''t2'') default_options empty_world
             = (Inr stored_task, paused_world)"
    by (simp add: paused_world_eq stored_task_def run_defs fixture_defs)
  have s: "status stored_task = Paused"
    by (simp add: stored_task_def pause_result_def status_of_def)
  have o: "option_saveToStorage default_options"
    by (simp add: option_saveToStorage_def default_options_def)
  have y: "fst (resume ?E InMemoryStorage ?rr paused_world) = Inr ?t"
    by (simp add: paused_world_eq stored_task_def run_defs fixture_defs)
  have c: "status ?t \<noteq> Paused"
    by (simp add: complete_result_def status_of_def)
  note T = only_paused_tasks_saved
    [where E = ?E and S = InMemoryStorage and rq = "test_request ''t2''"
       and opts = default_options and w = empty_world
       and r = "Inr stored_task" and w' = paused_world, THEN conjunct1, THEN mp, OF x]
  from T s o have a: "saved_tasks (emitted empty_world paused_world) = [stored_task]"
    by simp
  have z: "resume ?E InMemoryStorage ?rr paused_world
             = (Inr ?t, snd (resume ?E InMemoryStorage ?rr paused_world))"
    using y by (simp add: prod_eq_iff)
  note U = only_paused_tasks_saved
    [where E = ?E and S = InMemoryStorage and w = paused_world and rr = ?rr
       and r = "Inr ?t" and w' = "snd (resume ?E InMemoryStorage ?rr paused_world)",
     THEN conjunct2, THEN mp, OF z]
  from U c have d: "EvDelete (taskId ?rr) \<in> set (emitted paused_world
         (snd (resume ?E InMemoryStorage ?rr paused_world)))"
    by simp
  have "taskId ?rr = ''t2''" by (simp add: test_resume_def)
  with x s a y d show ?thesis by simp
qed

section \<open>C2: an engine failure in execute\<close>

text \<open>
  When the message of the caught failure can be read and the expiry renders, the catch
  block of \<^verbatim>\<open>execute\<close> turns a failure of the engine into an error task and no
  operation of the adapter is called.
\<close>

lemma execute_engine_failure:
  assumes f: "initialize (vm E) = Some e
            \<or> initialize (vm E) = None \<and> executeCode (vm E) (rq_code rq) = Inl e"
    and msg: "message e = Inr m"
    and tid: "tid = fst (make_task_id E rq w)"
    and n: "n = clock_reads (snd (make_task_id E rq w))"
    and date': "date_toISOString (plus_now (now E (Suc n)) (option_ttl opts)) = Inr x'"
  shows "fst (execute E S rq opts w) = Inr (execute_error_task rq tid m (now E n) x')
       \<and> store (snd (execute E S rq opts w)) = store w
       \<and> (\<forall>ev \<in> set (emitted w (snd (execute E S rq opts w))). \<not> is_storage_event ev)"
proof -
  obtain r w' where x: "execute E S rq opts w = (r, w')" by force
  then have "r = Inr (execute_error_task rq tid m (now E n) x') \<and> store w' = store w
       \<and> (\<forall>ev \<in> set (emitted w w'). \<not> is_storage_event ev)"
  proof (cases rule: execute_cases)
    case (caught tid1 k e1 evs w3 w4)
    from caught(1,2) tid n have k: "tid1 = tid" "k = n" by simp_all
    from caught(3) f
    have o: "e1 = e" "store w3 = store w" "clock_reads w3 = n"
      "\<forall>ev \<in> set evs. \<not> is_storage_event ev"
      using k by auto
    from caught(8) have em: "emitted w w' = [EvNew] @ evs @ [EvDispose]"
      by (rule emitted_append)
    from caught(7) show ?thesis
    proof (cases rule: execute_catch_cases)
      case (unreadable e')
      with msg o show ?thesis by simp
    next
      case (invalid m1 e')
      with date' o show ?thesis by simp
    next
      case (built m1 x1)
      with msg date' o k caught(9) em show ?thesis by simp
    qed
  qed (use f in auto)
  with x show ?thesis by simp
qed

text \<open>
  Claim C2 says that \<^verbatim>\<open>execute\<close> never raises when the engine's \<^verbatim>\<open>initialize\<close> or
  \<^verbatim>\<open>executeCode\<close> raises.  The \<^verbatim>\<open>catch\<close> block builds the error task with
  \<^verbatim>\<open>error.message\<close> and \<^verbatim>\<open>new Date(Date.now() + ttl).toISOString()\<close>, and either of the
  two can raise, outside every \<^verbatim>\<open>try\<close>.  With an engine whose run raises a failure with
  message \<^verbatim>\<open>boom\<close>, \<^verbatim>\<open>execute\<close> raises a RangeError when \<^verbatim>\<open>ttl\<close> is \<^verbatim>\<open>Infinity\<close>
  and when it is 8640000000000000; with an engine whose run throws \<^verbatim>\<open>null\<close>,
  \<^verbatim>\<open>execute\<close> raises a TypeError under the default options.  The storage is untouched
  in the three calls.
\<close>

theorem execute_raises_on_engine_failure:
  "executeCode (vm (test_env throwing_engine)) (rq_code (test_request ''t3''))
     = Inl (Failure ''boom'')
   \<and> execute (test_env throwing_engine) InMemoryStorage (test_request ''t3'')
        (ttl_options PlusInfinity) empty_world
     = (Inl (RangeError ''Invalid time value''),
        \<lparr> store = [], clock_reads = 2, random_reads = 0,
          trace = [EvNew, EvInitialize, EvExecuteCode ''const u = fetch(1); u'', EvDispose] \<rparr>)
   \<and> execute (test_env throwing_engine) InMemoryStorage (test_request ''t3'')
        (ttl_options (Finite 8640000000000000)) empty_world
     = (Inl (RangeError ''Invalid time value''),
        \<lparr> store = [], clock_reads = 2, random_reads = 0,
          trace = [EvNew, EvInitialize, EvExecuteCode ''const u = fetch(1); u'', EvDispose] \<rparr>)
   \<and> executeCode (vm (test_env null_throwing_engine)) (rq_code (test_request ''t3''))
     = Inl (Thrown JNull)
   \<and> execute (test_env null_throwing_engine) InMemoryStorage (test_request ''t3'')
        default_options empty_world
     = (Inl (read_of_nullish ''null'' ''message''),
        \<lparr> store = [], clock_reads = 0, random_reads = 0,
          trace = [EvNew, EvInitialize, EvExecuteCode ''const u = fetch(1); u'', EvDispose] \<rparr>)"
  by (simp add: run_defs fixture_defs)

section \<open>C7: the engine instance is disposed exactly once\<close>

text \<open>
  Claim C7.  Every call of \<^verbatim>\<open>execute\<close>, and every call of \<^verbatim>\<open>resume\<close> whose load
  finds a stored task, creates one engine instance and calls its \<^verbatim>\<open>dispose\<close> exactly
  once, as the last thing the call does, whether the call returns a task built from the
  engine's result, returns an error task, or raises.
\<close>

theorem dispose_exactly_once:
  "(execute E S rq opts w = (r, w') \<longrightarrow>
      count_list (emitted w w') EvNew = 1
      \<and> count_list (emitted w w') EvDispose = 1
      \<and> last (trace w') = EvDispose)
   \<and> (resume E S rr w = (r, w') \<and> fst (load S (taskId rr) (store w)) = Inr (Some st) \<longrightarrow>
      count_list (emitted w w') EvNew = 1
      \<and> count_list (emitted w w') EvDispose = 1
      \<and> last (trace w') = EvDispose)"
proof (intro conjI impI)
  assume a: "execute E S rq opts w = (r, w')"
  from execute_lifecycle [OF a]
  show "count_list (emitted w w') EvNew = 1" "count_list (emitted w w') EvDispose = 1"
    "last (trace w') = EvDispose" by simp_all
next
  assume a: "resume E S rr w = (r, w') \<and> fst (load S (taskId rr) (store w)) = Inr (Some st)"
  then have b: "resume E S rr w = (r, w')"
    and c: "fst (load S (taskId rr) (store w)) = Inr (Some st)" by simp_all
  from resume_lifecycle [OF b] c
  show "count_list (emitted w w') EvNew = 1" "count_list (emitted w w') EvDispose = 1"
    "last (trace w') = EvDispose" by simp_all
qed

theorem dispose_exactly_once_witness:
  "fst (execute (test_env fetching_engine) CustomStorage (test_request ''t7'') default_options
          empty_world)
     = Inr (execute_error_task (test_request ''t7'') ''t7''
              (JStr ''save() method must be implemented'') 1002 7201003)
   \<and> count_list (emitted empty_world
         (snd (execute (test_env fetching_engine) CustomStorage (test_request ''t7'')
                default_options empty_world))) EvDispose = 1
   \<and> fst (execute (test_env throwing_engine) InMemoryStorage (test_request ''t7'')
            (ttl_options PlusInfinity) empty_world) = Inl invalid_time
   \<and> count_list (emitted empty_world
         (snd (execute (test_env throwing_engine) InMemoryStorage (test_request ''t7'')
                (ttl_options PlusInfinity) empty_world))) EvDispose = 1
   \<and> fst (load InMemoryStorage ''t2'' (store paused_world))
       = Inr (Some (stored_task))
   \<and> count_list (emitted paused_world
         (snd (resume (test_env throwing_engine) InMemoryStorage
                (test_resume ''t2'' (JObj [(''data'', JNum 5)])) paused_world))) EvDispose = 1"
  using dispose_exactly_once
    [of "test_env fetching_engine" CustomStorage "test_request ''t7''" default_options
        empty_world
        "fst (execute (test_env fetching_engine) CustomStorage (test_request ''t7'')
               default_options empty_world)"
        "snd (execute (test_env fetching_engine) CustomStorage (test_request ''t7'')
               default_options empty_world)"]
    dispose_exactly_once
    [of "test_env throwing_engine" InMemoryStorage "test_request ''t7''"
        "ttl_options PlusInfinity" empty_world
        "fst (execute (test_env throwing_engine) InMemoryStorage (test_request ''t7'')
               (ttl_options PlusInfinity) empty_world)"
        "snd (execute (test_env throwing_engine) InMemoryStorage (test_request ''t7'')
               (ttl_options PlusInfinity) empty_world)"]
    dispose_exactly_once
    [where E = "test_env throwing_engine" and S = InMemoryStorage and w = paused_world
       and rr = "test_resume ''t2'' (JObj [(''data'', JNum 5)])"
       and r = "fst (resume (test_env throwing_engine) InMemoryStorage
                (test_resume ''t2'' (JObj [(''data'', JNum 5)])) paused_world)"
       and w' = "snd (resume (test_env throwing_engine) InMemoryStorage
                (test_resume ''t2'' (JObj [(''data'', JNum 5)])) paused_world)"
       and st = "stored_task"]
  by (simp add: paused_world_eq run_defs fixture_defs)

section \<open>C8: the in-memory adapter returns what was saved\<close>

text \<open>
  Claim C8.  With the in-memory adapter, \<^verbatim>\<open>save\<close> does not raise and a \<^verbatim>\<open>load\<close> of the
  saved task's id returns exactly that task, whatever the adapter held before.  A second
  \<^verbatim>\<open>save\<close> under the same id overwrites: the second task is the one loaded, the state
  is the one a single save of the second task gives, and no entry is added.
\<close>

theorem in_memory_round_trip:
  "fst (save InMemoryStorage t m) = None
   \<and> load InMemoryStorage (t_id t) (snd (save InMemoryStorage t m))
       = (Inr (Some t), snd (save InMemoryStorage t m))
   \<and> (t_id t2 = t_id t \<longrightarrow>
        fst (load InMemoryStorage (t_id t)
              (snd (save InMemoryStorage t2 (snd (save InMemoryStorage t m))))) = Inr (Some t2)
        \<and> snd (save InMemoryStorage t2 (snd (save InMemoryStorage t m)))
            = snd (save InMemoryStorage t2 m)
        \<and> length (list_tasks (snd (save InMemoryStorage t2 (snd (save InMemoryStorage t m)))))
            = length (list_tasks (snd (save InMemoryStorage t m))))"
  by (simp add: in_memory_simps map_get_set map_set_set list_tasks_def length_map_set)

theorem in_memory_round_trip_witness:
  "t_id later_task = t_id stored_task
   \<and> later_task \<noteq> stored_task
   \<and> fst (load InMemoryStorage ''t2''
            (snd (save InMemoryStorage later_task (snd (save InMemoryStorage stored_task [])))))
       = Inr (Some later_task)
   \<and> list_tasks (snd (save InMemoryStorage later_task (snd (save InMemoryStorage stored_task []))))
       = [later_task]"
  using in_memory_round_trip [where t = stored_task and ?t2.0 = later_task and m = "[]"]
  by (simp add: later_task_def stored_task_def execute_task_def InMemoryStorage_def
      list_tasks_def)
section \<open>C9: deleting is idempotent\<close>

lemma deleteTask_pass_through:
  "fst (deleteTask S k v) = (case fst (delete S k (store v)) of None \<Rightarrow> Inr () | Some e \<Rightarrow> Inl e)
   \<and> store (snd (deleteTask S k v)) = snd (delete S k (store v))"
  by (cases "delete S k (store v)")
     (auto simp: deleteTask_def storage_delete_def split: option.splits)

text \<open>
  Claim C9.  With the in-memory adapter, \<^verbatim>\<open>deleteTask\<close> never raises, for an id that
  is stored and for one that is not; after it the id is absent, a second call changes
  nothing, and a call on an absent id leaves the storage as it was.  The same holds
  of the adapter's own \<^verbatim>\<open>delete\<close>.  \<^verbatim>\<open>deleteTask\<close> adds nothing to the adapter it is
  given: it raises exactly when that adapter's \<^verbatim>\<open>delete\<close> does, and leaves the storage
  as that \<^verbatim>\<open>delete\<close> leaves it.
\<close>

theorem deleteTask_idempotent:
  "fst (deleteTask InMemoryStorage k w) = Inr ()
   \<and> fst (getTask InMemoryStorage k (snd (deleteTask InMemoryStorage k w))) = Inr None
   \<and> fst (deleteTask InMemoryStorage k (snd (deleteTask InMemoryStorage k w))) = Inr ()
   \<and> store (snd (deleteTask InMemoryStorage k (snd (deleteTask InMemoryStorage k w))))
       = store (snd (deleteTask InMemoryStorage k w))
   \<and> (fst (getTask InMemoryStorage k w) = Inr None \<longrightarrow>
        store (snd (deleteTask InMemoryStorage k w)) = store w)
   \<and> fst (delete InMemoryStorage k m) = None
   \<and> fst (load InMemoryStorage k (snd (delete InMemoryStorage k m))) = Inr None
   \<and> snd (delete InMemoryStorage k (snd (delete InMemoryStorage k m)))
       = snd (delete InMemoryStorage k m)
   \<and> fst (deleteTask S k v)
       = (case fst (delete S k (store v)) of None \<Rightarrow> Inr () | Some e \<Rightarrow> Inl e)
   \<and> store (snd (deleteTask S k v)) = snd (delete S k (store v))"
  using deleteTask_pass_through [of S k v]
  by (simp add: deleteTask_def getTask_def storage_delete_in_memory storage_load_in_memory
      in_memory_simps map_get_delete map_delete_delete map_delete_absent)

theorem deleteTask_idempotent_witness:
  "fst (getTask InMemoryStorage ''does-not-exist'' paused_world) = Inr None
   \<and> fst (deleteTask InMemoryStorage ''does-not-exist'' paused_world) = Inr ()
   \<and> store (snd (deleteTask InMemoryStorage ''does-not-exist'' paused_world))
       = store paused_world
   \<and> store (snd (deleteTask InMemoryStorage ''t2'' paused_world)) = []"
  using deleteTask_idempotent
    [where k = "''does-not-exist''" and w = paused_world and m = "store paused_world"
       and S = InMemoryStorage and v = paused_world]
  by (simp add: paused_world_eq deleteTask_def getTask_def storage_delete_in_memory
      storage_load_in_memory)
section \<open>C10: the response value handed to the engine\<close>

lemma response_value_Inr:
  "response_value fr = Inr a \<longleftrightarrow>
     (\<exists>d. get_prop fr ''data'' = Inr d \<and> a = (if truthy d then d else fr))"
  by (auto simp: response_value_def js_or_def split: sum.splits)

lemma resume_handed:
  assumes "resume E S rr w = (r, w')"
  shows "(\<forall>slot v a. EvResumeExecution slot v a \<in> set (emitted w w') \<longrightarrow>
            v = rq_vmState rr \<and> response_value (fetchResponse rr) = Inr a)
       \<and> (\<forall>st a. fst (load S (taskId rr) (store w)) = Inr (Some st)
             \<and> initialize (vm E) = None \<and> response_value (fetchResponse rr) = Inr a \<longrightarrow>
            EvResumeExecution (restored_paused E rr st) (rq_vmState rr) a
              \<in> set (emitted w w'))"
  using assms
proof (cases rule: resume_cases)
  case (load_failed e)
  from load_failed(3) have "emitted w w' = [EvLoad (taskId rr)]" by (rule emitted_append)
  with load_failed(1) show ?thesis by simp
next
  case task_absent
  from task_absent(3) have "emitted w w' = [EvLoad (taskId rr)]" by (rule emitted_append)
  with task_absent(1) show ?thesis by simp
next
  case (resumed_paused st s1 a res p x t)
  from resumed_paused(10) have "emitted w w' = [EvLoad (taskId rr), EvNew, EvInitialize,
          EvResumeExecution (restored_paused E rr st) (rq_vmState rr) a, EvSave t, EvDispose]"
    by (rule emitted_append)
  with resumed_paused(1,3) show ?thesis by simp
next
  case (resumed_done st s1 a res p x t)
  from resumed_done(10) have "emitted w w' = [EvLoad (taskId rr), EvNew, EvInitialize,
          EvResumeExecution (restored_paused E rr st) (rq_vmState rr) a,
          EvDelete (taskId rr), EvDispose]"
    by (rule emitted_append)
  with resumed_done(1,3) show ?thesis by simp
next
  case (caught st s1 e evs w2 w3)
  from resume_catch_world [OF caught(6)]
  obtain ds where ds: "trace w3 = trace w2 @ ds" "ds = [] \<or> ds = [EvDelete (taskId rr)]"
    by auto
  with caught(7,8)
  have "trace w' = trace w @ ([EvLoad (taskId rr), EvNew, EvInitialize] @ evs @ ds @ [EvDispose])"
    by simp
  then have "emitted w w' = [EvLoad (taskId rr), EvNew, EvInitialize] @ evs @ ds @ [EvDispose]"
    by (rule emitted_append)
  with ds(2) have em: "EvResumeExecution slot v a \<in> set (emitted w w')
      \<longleftrightarrow> EvResumeExecution slot v a \<in> set evs" for slot v a
    by auto
  from caught(2) show ?thesis
  proof (elim disjE conjE exE)
    assume "initialize (vm E) = Some e" "evs = []"
    with em caught(1) show ?thesis by simp
  next
    assume "response_value (fetchResponse rr) = Inl e" "evs = []"
    with em caught(1) show ?thesis by simp
  next
    fix a
    assume "response_value (fetchResponse rr) = Inr a"
      "evs = [EvResumeExecution (restored_paused E rr st) (rq_vmState rr) a]"
    with em caught(1) show ?thesis by simp
  next
    fix a res p
    assume "response_value (fetchResponse rr) = Inr a"
      "evs = [EvResumeExecution (restored_paused E rr st) (rq_vmState rr) a]"
    with em caught(1) show ?thesis by simp
  next
    fix a res p x t
    assume "response_value (fetchResponse rr) = Inr a"
      "evs = [EvResumeExecution (restored_paused E rr st) (rq_vmState rr) a, EvSave t]"
    with em caught(1) show ?thesis by simp
  next
    fix a res p x
    assume "response_value (fetchResponse rr) = Inr a"
      "evs = [EvResumeExecution (restored_paused E rr st) (rq_vmState rr) a,
                        EvDelete (taskId rr)]"
    with em caught(1) show ?thesis by simp
  qed
qed

text \<open>
  Claim C10.  The response value that \<^verbatim>\<open>resume\<close> hands to the engine's
  \<^verbatim>\<open>resumeExecution\<close> is \<^verbatim>\<open>fetchResponse.data\<close> when that is truthy and the whole
  \<^verbatim>\<open>fetchResponse\<close> otherwise, next to the request's \<^verbatim>\<open>vmState\<close>; and the call is made
  whenever the task is stored, the engine initializes and \<^verbatim>\<open>fetchResponse\<close> can be read.
  So the wrappers \<^verbatim>\<open>{data: 0}\<close>, \<^verbatim>\<open>{data: ''}\<close>, \<^verbatim>\<open>{data: false}\<close> and
  \<^verbatim>\<open>{data: null}\<close> reach the engine whole, while \<^verbatim>\<open>{data: {name: 'Alice'}}\<close> is unwrapped.
\<close>

theorem resume_hands_unwrapped_response:
  "(resume E S rr w = (r, w') \<and> EvResumeExecution slot v a \<in> set (emitted w w') \<longrightarrow>
      v = rq_vmState rr
      \<and> (\<exists>d. get_prop (fetchResponse rr) ''data'' = Inr d
            \<and> a = (if truthy d then d else fetchResponse rr)))
   \<and> (resume E S rr w = (r, w') \<and> fst (load S (taskId rr) (store w)) = Inr (Some st)
        \<and> initialize (vm E) = None \<and> get_prop (fetchResponse rr) ''data'' = Inr d \<longrightarrow>
      EvResumeExecution (restored_paused E rr st) (rq_vmState rr)
        (if truthy d then d else fetchResponse rr) \<in> set (emitted w w'))
   \<and> response_value (JObj [(''data'', JNum 0)]) = Inr (JObj [(''data'', JNum 0)])
   \<and> response_value (JObj [(''data'', JStr [])]) = Inr (JObj [(''data'', JStr [])])
   \<and> response_value (JObj [(''data'', JBool False)]) = Inr (JObj [(''data'', JBool False)])
   \<and> response_value (JObj [(''data'', JNull)]) = Inr (JObj [(''data'', JNull)])
   \<and> response_value (JObj [(''data'', JObj [(''name'', JStr ''Alice'')])])
       = Inr (JObj [(''name'', JStr ''Alice'')])"
proof (intro conjI impI)
  assume a: "resume E S rr w = (r, w') \<and> EvResumeExecution slot v a \<in> set (emitted w w')"
  then have x: "resume E S rr w = (r, w')" by simp
  from resume_handed [OF x] a
  have h: "v = rq_vmState rr" "response_value (fetchResponse rr) = Inr a" by blast+
  show "v = rq_vmState rr" by (rule h(1))
  from h(2) show "\<exists>d. get_prop (fetchResponse rr) ''data'' = Inr d
            \<and> a = (if truthy d then d else fetchResponse rr)"
    by (simp add: response_value_Inr)
next
  assume a: "resume E S rr w = (r, w') \<and> fst (load S (taskId rr) (store w)) = Inr (Some st)
        \<and> initialize (vm E) = None \<and> get_prop (fetchResponse rr) ''data'' = Inr d"
  then have x: "resume E S rr w = (r, w')" by simp
  from a have "response_value (fetchResponse rr)
                 = Inr (if truthy d then d else fetchResponse rr)"
    by (simp add: response_value_Inr)
  with resume_handed [OF x] a
  show "EvResumeExecution (restored_paused E rr st) (rq_vmState rr)
        (if truthy d then d else fetchResponse rr) \<in> set (emitted w w')" by blast
qed (simp_all add: response_value_def js_or_def)

theorem resume_hands_unwrapped_response_witness:
  "fst (load InMemoryStorage (taskId (test_resume ''t2'' (JObj [(''data'', JNum 0)])))
         (store paused_world)) = Inr (Some stored_task)
   \<and> initialize (vm (test_env fetching_engine)) = None
   \<and> get_prop (fetchResponse (test_resume ''t2'' (JObj [(''data'', JNum 0)]))) ''data''
       = Inr (JNum 0)
   \<and> EvResumeExecution (JObj [(''fetch'', JNum 1)]) (JObj [(''pc'', JNum 1)])
        (JObj [(''data'', JNum 0)])
       \<in> set (emitted paused_world
            (snd (resume (test_env fetching_engine) InMemoryStorage
                   (test_resume ''t2'' (JObj [(''data'', JNum 0)])) paused_world)))"
proof -
  let ?E = "test_env fetching_engine"
  let ?rr = "test_resume ''t2'' (JObj [(''data'', JNum 0)])"
  have l: "fst (load InMemoryStorage (taskId ?rr) (store paused_world)) = Inr (Some stored_task)"
    by (simp add: paused_world_eq test_resume_def in_memory_simps)
  have i: "initialize (vm ?E) = None"
    by (simp add: test_env_def fetching_engine_def)
  have g: "get_prop (fetchResponse ?rr) ''data'' = Inr (JNum 0)"
    by (simp add: test_resume_def)
  have x: "resume ?E InMemoryStorage ?rr paused_world
             = (fst (resume ?E InMemoryStorage ?rr paused_world),
                snd (resume ?E InMemoryStorage ?rr paused_world))"
    by simp
  note T = resume_hands_unwrapped_response
    [where E = ?E and S = InMemoryStorage and rr = ?rr and w = paused_world
       and r = "fst (resume ?E InMemoryStorage ?rr paused_world)"
       and w' = "snd (resume ?E InMemoryStorage ?rr paused_world)"
       and st = stored_task and d = "JNum 0",
     THEN conjunct2, THEN conjunct1, THEN mp, OF conjI [OF x conjI [OF l conjI [OF i g]]]]
  have s: "restored_paused ?E ?rr stored_task = JObj [(''fetch'', JNum 1)]"
    by (simp add: restored_paused_def test_resume_def stored_task_def execute_task_def
        pause_result_def js_or_def)
  have v: "rq_vmState ?rr = JObj [(''pc'', JNum 1)]" by (simp add: test_resume_def)
  have f: "fetchResponse ?rr = JObj [(''data'', JNum 0)]" by (simp add: test_resume_def)
  from T s v f have "EvResumeExecution (JObj [(''fetch'', JNum 1)]) (JObj [(''pc'', JNum 1)])
        (JObj [(''data'', JNum 0)])
       \<in> set (emitted paused_world (snd (resume ?E InMemoryStorage ?rr paused_world)))"
    by simp
  with l i g show ?thesis by simp
qed

section \<open>C6: time-to-live\<close>










section \<open>C5: the status-field invariants of returned tasks\<close>












section \<open>Failures of the storage adapter\<close>

subsection \<open>A failing save in execute\<close>

lemma execute_save_failure:
  assumes sv: "option_saveToStorage opts"
    and init: "initialize (vm E) = None"
    and run: "executeCode (vm E) (rq_code rq) = Inr (res, p)"
    and paused: "status_of res = Paused"
    and tid: "tid = fst (make_task_id E rq w)"
    and n: "n = clock_reads (snd (make_task_id E rq w))"
    and date: "date_toISOString (plus_now (now E (Suc n)) (option_ttl opts)) = Inr x"
    and save: "save S (execute_task rq tid res p (now E n) x) (store w) = (Some e, s)"
    and msg: "message e = Inr m"
    and date': "date_toISOString (plus_now (now E (Suc (Suc (Suc n)))) (option_ttl opts)) = Inr x'"
  shows "fst (execute E S rq opts w)
           = Inr (execute_error_task rq tid m (now E (Suc (Suc n))) x')
       \<and> store (snd (execute E S rq opts w)) = s"
proof -
  obtain r w' where x: "execute E S rq opts w = (r, w')" by force
  then have "r = Inr (execute_error_task rq tid m (now E (Suc (Suc n))) x') \<and> store w' = s"
  proof (cases rule: execute_cases)
    case (returned tid1 k res1 p1 x1 t1)
    with sv run paused show ?thesis by simp
  next
    case (persisted tid1 k res1 p1 x1 t1)
    with run date save tid n show ?thesis by simp
  next
    case (caught tid1 k e1 evs w3 w4)
    from caught(1,2) tid n have k: "tid1 = tid" "k = n" by simp_all
    from caught(3) init run date save k
    have o: "e1 = e" "store w3 = s" "clock_reads w3 = Suc (Suc n)" by auto
    from caught(7) show ?thesis
    proof (cases rule: execute_catch_cases)
      case (unreadable e')
      with msg o show ?thesis by simp
    next
      case (invalid m1 e')
      with date' o show ?thesis by simp
    next
      case (built m1 x1)
      with msg date' o k caught(9) show ?thesis by simp
    qed
  qed
  with x show ?thesis by simp
qed

subsection \<open>What the catch block of resume does with a caught failure\<close>

lemma resume_catch_result:
  assumes "resume_catch E S rr st e w2 = (r, w3)" "message e = Inr m"
    "resume_expiry (now E (Suc (clock_reads w2))) = Inr x'"
  shows "r = (case fst (delete S (taskId rr) (store w2)) of
                None \<Rightarrow> Inr (resume_error_task rr st m (now E (clock_reads w2)) x')
              | Some e' \<Rightarrow> Inl e')
       \<and> store w3 = snd (delete S (taskId rr) (store w2))"
  using assms by (cases rule: resume_catch_cases) simp_all

lemma resume_engine_failure:
  assumes ld: "load S (taskId rr) (store w) = (Inr (Some st), s1)"
    and f: "initialize (vm E) = Some e
          \<or> initialize (vm E) = None \<and> response_value (fetchResponse rr) = Inl e
          \<or> initialize (vm E) = None \<and> response_value (fetchResponse rr) = Inr a
              \<and> resumeExecution (vm E) (restored_paused E rr st) (rq_vmState rr) a = Inl e"
    and msg: "message e = Inr m"
    and n: "n = clock_reads w"
    and date': "resume_expiry (now E (Suc n)) = Inr x'"
  shows "fst (resume E S rr w)
           = (case fst (delete S (taskId rr) s1) of
                None \<Rightarrow> Inr (resume_error_task rr st m (now E n) x')
              | Some e' \<Rightarrow> Inl e')
       \<and> store (snd (resume E S rr w)) = snd (delete S (taskId rr) s1)"
proof -
  obtain r w' where x: "resume E S rr w = (r, w')" by force
  then have "r = (case fst (delete S (taskId rr) s1) of
                None \<Rightarrow> Inr (resume_error_task rr st m (now E n) x')
              | Some e' \<Rightarrow> Inl e')
       \<and> store w' = snd (delete S (taskId rr) s1)"
  proof (cases rule: resume_cases)
    case (resumed_paused st1 s a1 res p x1 t)
    with ld f show ?thesis by auto
  next
    case (resumed_done st1 s a1 res p x1 t)
    with ld f show ?thesis by auto
  next
    case (caught st1 s e1 evs w2 w3)
    from caught(1) ld have k: "st1 = st" "s = s1" by simp_all
    from caught(2) f date' n k
    have o: "e1 = e" "store w2 = s1" "clock_reads w2 = n" by auto
    from caught(6) o k have c: "resume_catch E S rr st e w2 = (r, w3)" by simp
    from date' o have d: "resume_expiry (now E (Suc (clock_reads w2))) = Inr x'" by simp
    from resume_catch_result [OF c msg d] o caught(9) show ?thesis
      by (simp split: option.splits)
  qed (use ld in simp_all)
  with x show ?thesis by simp
qed

lemma resume_save_failure:
  assumes ld: "load S (taskId rr) (store w) = (Inr (Some st), s1)"
    and init: "initialize (vm E) = None"
    and resp: "response_value (fetchResponse rr) = Inr a"
    and run: "resumeExecution (vm E) (restored_paused E rr st) (rq_vmState rr) a = Inr (res, p)"
    and paused: "status_of res = Paused"
    and n: "n = clock_reads w"
    and date: "resume_expiry (now E (Suc n)) = Inr x"
    and save: "save S (resume_task rr st res p (now E n) x) s1 = (Some e, s2)"
    and msg: "message e = Inr m"
    and date': "resume_expiry (now E (Suc (Suc (Suc n)))) = Inr x'"
  shows "fst (resume E S rr w)
           = (case fst (delete S (taskId rr) s2) of
                None \<Rightarrow> Inr (resume_error_task rr st m (now E (Suc (Suc n))) x')
              | Some e' \<Rightarrow> Inl e')
       \<and> store (snd (resume E S rr w)) = snd (delete S (taskId rr) s2)"
proof -
  obtain r w' where x: "resume E S rr w = (r, w')" by force
  then have "r = (case fst (delete S (taskId rr) s2) of
                None \<Rightarrow> Inr (resume_error_task rr st m (now E (Suc (Suc n))) x')
              | Some e' \<Rightarrow> Inl e')
       \<and> store w' = snd (delete S (taskId rr) s2)"
  proof (cases rule: resume_cases)
    case (resumed_paused st1 s a1 res1 p1 x1 t)
    with ld resp run date save n show ?thesis by simp
  next
    case (resumed_done st1 s a1 res1 p1 x1 t)
    with ld resp run paused show ?thesis by simp
  next
    case (caught st1 s e1 evs w2 w3)
    from caught(1) ld have k: "st1 = st" "s = s1" by simp_all
    from caught(2) init resp run paused date save n k
    have o: "e1 = e" "store w2 = s2" "clock_reads w2 = Suc (Suc n)" by auto
    from caught(6) o k have c: "resume_catch E S rr st e w2 = (r, w3)" by simp
    from date' o have d: "resume_expiry (now E (Suc (clock_reads w2))) = Inr x'" by simp
    from resume_catch_result [OF c msg d] o caught(9) show ?thesis
      by (simp split: option.splits)
  qed (use ld in simp_all)
  with x show ?thesis by simp
qed

lemma resume_delete_failure:
  assumes ld: "load S (taskId rr) (store w) = (Inr (Some st), s1)"
    and init: "initialize (vm E) = None"
    and resp: "response_value (fetchResponse rr) = Inr a"
    and run: "resumeExecution (vm E) (restored_paused E rr st) (rq_vmState rr) a = Inr (res, p)"
    and fin: "status_of res \<noteq> Paused"
    and n: "n = clock_reads w"
    and date: "resume_expiry (now E (Suc n)) = Inr x"
    and del: "delete S (taskId rr) s1 = (Some e, s2)"
    and msg: "message e = Inr m"
    and date': "resume_expiry (now E (Suc (Suc (Suc n)))) = Inr x'"
  shows "fst (resume E S rr w)
           = (case fst (delete S (taskId rr) s2) of
                None \<Rightarrow> Inr (resume_error_task rr st m (now E (Suc (Suc n))) x')
              | Some e' \<Rightarrow> Inl e')
       \<and> store (snd (resume E S rr w)) = snd (delete S (taskId rr) s2)"
proof -
  obtain r w' where x: "resume E S rr w = (r, w')" by force
  then have "r = (case fst (delete S (taskId rr) s2) of
                None \<Rightarrow> Inr (resume_error_task rr st m (now E (Suc (Suc n))) x')
              | Some e' \<Rightarrow> Inl e')
       \<and> store w' = snd (delete S (taskId rr) s2)"
  proof (cases rule: resume_cases)
    case (resumed_paused st1 s a1 res1 p1 x1 t)
    with ld resp run fin show ?thesis by simp
  next
    case (resumed_done st1 s a1 res1 p1 x1 t)
    with ld resp run del show ?thesis by simp
  next
    case (caught st1 s e1 evs w2 w3)
    from caught(1) ld have k: "st1 = st" "s = s1" by simp_all
    from caught(2) init resp run fin date del n k
    have o: "e1 = e" "store w2 = s2" "clock_reads w2 = Suc (Suc n)" by auto
    from caught(6) o k have c: "resume_catch E S rr st e w2 = (r, w3)" by simp
    from date' o have d: "resume_expiry (now E (Suc (clock_reads w2))) = Inr x'" by simp
    from resume_catch_result [OF c msg d] o caught(9) show ?thesis
      by (simp split: option.splits)
  qed (use ld in simp_all)
  with x show ?thesis by simp
qed

lemma resume_load_failure:
  assumes "fst (load S (taskId rr) (store w)) = Inl e"
  shows "fst (resume E S rr w) = Inl e
       \<and> store (snd (resume E S rr w)) = snd (load S (taskId rr) (store w))
       \<and> emitted w (snd (resume E S rr w)) = [EvLoad (taskId rr)]"
proof -
  obtain r w' where x: "resume E S rr w = (r, w')" by force
  then have "r = Inl e \<and> store w' = snd (load S (taskId rr) (store w))
       \<and> emitted w w' = [EvLoad (taskId rr)]"
    using assms by (cases rule: resume_cases) (simp_all add: emitted_def)
  with x show ?thesis by simp
qed

section \<open>C4: which storage failures reach the caller\<close>

text \<open>
  Claim C4, as amended.  A failure of the adapter's \<^verbatim>\<open>load\<close> in \<^verbatim>\<open>resume\<close> and in
  \<^verbatim>\<open>getTask\<close>, and of its \<^verbatim>\<open>delete\<close> in \<^verbatim>\<open>deleteTask\<close>, reaches the caller as it
  is; \<^verbatim>\<open>resume\<close> has then called nothing but \<^verbatim>\<open>load\<close>.  A failure of \<^verbatim>\<open>save\<close> in
  \<^verbatim>\<open>execute\<close> does not reach the caller: it is caught, and when the catch block builds
  its error task (the message of the failure can be read and the expiry renders),
  \<^verbatim>\<open>execute\<close> returns that task, which carries the message of the failed save.  In
  \<^verbatim>\<open>resume\<close> a failure of the \<^verbatim>\<open>save\<close> or of the \<^verbatim>\<open>delete\<close> in the try block is
  caught in the same way, and so is a failure of the engine or of reading
  \<^verbatim>\<open>fetchResponse\<close>; the catch block builds its error task and calls \<^verbatim>\<open>delete\<close>:
  \<^verbatim>\<open>resume\<close> returns the error task with the message of the caught failure when that
  \<^verbatim>\<open>delete\<close> succeeds, and raises the failure of that \<^verbatim>\<open>delete\<close>, as it is, when it
  fails.  The storage is left as the last call of the adapter left it.
\<close>

theorem storage_failures_propagation:
  "(fst (load S (taskId rr) (store w)) = Inl e \<longrightarrow>
      fst (resume E S rr w) = Inl e
      \<and> store (snd (resume E S rr w)) = snd (load S (taskId rr) (store w))
      \<and> emitted w (snd (resume E S rr w)) = [EvLoad (taskId rr)])
   \<and> (fst (load S k (store w)) = Inl e \<longrightarrow> fst (getTask S k w) = Inl e)
   \<and> (fst (delete S k (store w)) = Some e \<longrightarrow> fst (deleteTask S k w) = Inl e)
   \<and> (option_saveToStorage opts \<and> initialize (vm E) = None
        \<and> executeCode (vm E) (rq_code rq) = Inr (res, p) \<and> status_of res = Paused
        \<and> tid = fst (make_task_id E rq w) \<and> n = clock_reads (snd (make_task_id E rq w))
        \<and> date_toISOString (plus_now (now E (Suc n)) (option_ttl opts)) = Inr x
        \<and> save S (execute_task rq tid res p (now E n) x) (store w) = (Some e, s)
        \<and> message e = Inr m
        \<and> date_toISOString (plus_now (now E (Suc (Suc (Suc n)))) (option_ttl opts)) = Inr x'
      \<longrightarrow>
      fst (execute E S rq opts w) = Inr (execute_error_task rq tid m (now E (Suc (Suc n))) x')
      \<and> store (snd (execute E S rq opts w)) = s)
   \<and> (load S (taskId rr) (store w) = (Inr (Some st), s1) \<and> initialize (vm E) = None
        \<and> response_value (fetchResponse rr) = Inr a
        \<and> resumeExecution (vm E) (restored_paused E rr st) (rq_vmState rr) a = Inr (res, p)
        \<and> status_of res = Paused
        \<and> resume_expiry (now E (Suc (clock_reads w))) = Inr x
        \<and> save S (resume_task rr st res p (now E (clock_reads w)) x) s1 = (Some e, s2)
        \<and> message e = Inr m
        \<and> resume_expiry (now E (Suc (Suc (Suc (clock_reads w))))) = Inr x'
      \<longrightarrow>
      fst (resume E S rr w)
        = (case fst (delete S (taskId rr) s2) of
             None \<Rightarrow> Inr (resume_error_task rr st m (now E (Suc (Suc (clock_reads w)))) x')
           | Some e' \<Rightarrow> Inl e')
      \<and> store (snd (resume E S rr w)) = snd (delete S (taskId rr) s2))
   \<and> (load S (taskId rr) (store w) = (Inr (Some st), s1) \<and> initialize (vm E) = None
        \<and> response_value (fetchResponse rr) = Inr a
        \<and> resumeExecution (vm E) (restored_paused E rr st) (rq_vmState rr) a = Inr (res, p)
        \<and> status_of res \<noteq> Paused
        \<and> resume_expiry (now E (Suc (clock_reads w))) = Inr x
        \<and> delete S (taskId rr) s1 = (Some e, s2)
        \<and> message e = Inr m
        \<and> resume_expiry (now E (Suc (Suc (Suc (clock_reads w))))) = Inr x'
      \<longrightarrow>
      fst (resume E S rr w)
        = (case fst (delete S (taskId rr) s2) of
             None \<Rightarrow> Inr (resume_error_task rr st m (now E (Suc (Suc (clock_reads w)))) x')
           | Some e' \<Rightarrow> Inl e')
      \<and> store (snd (resume E S rr w)) = snd (delete S (taskId rr) s2))
   \<and> (load S (taskId rr) (store w) = (Inr (Some st), s1)
        \<and> (initialize (vm E) = Some e
            \<or> initialize (vm E) = None \<and> response_value (fetchResponse rr) = Inl e
            \<or> initialize (vm E) = None \<and> response_value (fetchResponse rr) = Inr a
                \<and> resumeExecution (vm E) (restored_paused E rr st) (rq_vmState rr) a = Inl e)
        \<and> message e = Inr m
        \<and> resume_expiry (now E (Suc (clock_reads w))) = Inr x'
      \<longrightarrow>
      fst (resume E S rr w)
        = (case fst (delete S (taskId rr) s1) of
             None \<Rightarrow> Inr (resume_error_task rr st m (now E (clock_reads w)) x')
           | Some e' \<Rightarrow> Inl e')
      \<and> store (snd (resume E S rr w)) = snd (delete S (taskId rr) s1))"
proof (intro conjI)
  show "fst (load S (taskId rr) (store w)) = Inl e \<longrightarrow>
      fst (resume E S rr w) = Inl e
      \<and> store (snd (resume E S rr w)) = snd (load S (taskId rr) (store w))
      \<and> emitted w (snd (resume E S rr w)) = [EvLoad (taskId rr)]"
    by (rule impI) (rule resume_load_failure)
next
  show "fst (load S k (store w)) = Inl e \<longrightarrow> fst (getTask S k w) = Inl e"
    by (cases "load S k (store w)") (simp add: getTask_def storage_load_def)
next
  show "fst (delete S k (store w)) = Some e \<longrightarrow> fst (deleteTask S k w) = Inl e"
    by (cases "delete S k (store w)") (simp add: deleteTask_def storage_delete_def)
next
  show "option_saveToStorage opts \<and> initialize (vm E) = None
        \<and> executeCode (vm E) (rq_code rq) = Inr (res, p) \<and> status_of res = Paused
        \<and> tid = fst (make_task_id E rq w) \<and> n = clock_reads (snd (make_task_id E rq w))
        \<and> date_toISOString (plus_now (now E (Suc n)) (option_ttl opts)) = Inr x
        \<and> save S (execute_task rq tid res p (now E n) x) (store w) = (Some e, s)
        \<and> message e = Inr m
        \<and> date_toISOString (plus_now (now E (Suc (Suc (Suc n)))) (option_ttl opts)) = Inr x'
      \<longrightarrow>
      fst (execute E S rq opts w) = Inr (execute_error_task rq tid m (now E (Suc (Suc n))) x')
      \<and> store (snd (execute E S rq opts w)) = s"
    by (rule impI, elim conjE) (rule execute_save_failure)
next
  show "load S (taskId rr) (store w) = (Inr (Some st), s1) \<and> initialize (vm E) = None
        \<and> response_value (fetchResponse rr) = Inr a
        \<and> resumeExecution (vm E) (restored_paused E rr st) (rq_vmState rr) a = Inr (res, p)
        \<and> status_of res = Paused
        \<and> resume_expiry (now E (Suc (clock_reads w))) = Inr x
        \<and> save S (resume_task rr st res p (now E (clock_reads w)) x) s1 = (Some e, s2)
        \<and> message e = Inr m
        \<and> resume_expiry (now E (Suc (Suc (Suc (clock_reads w))))) = Inr x'
      \<longrightarrow>
      fst (resume E S rr w)
        = (case fst (delete S (taskId rr) s2) of
             None \<Rightarrow> Inr (resume_error_task rr st m (now E (Suc (Suc (clock_reads w)))) x')
           | Some e' \<Rightarrow> Inl e')
      \<and> store (snd (resume E S rr w)) = snd (delete S (taskId rr) s2)"
    by (rule impI, elim conjE) (rule resume_save_failure [OF _ _ _ _ _ refl])
next
  show "load S (taskId rr) (store w) = (Inr (Some st), s1) \<and> initialize (vm E) = None
        \<and> response_value (fetchResponse rr) = Inr a
        \<and> resumeExecution (vm E) (restored_paused E rr st) (rq_vmState rr) a = Inr (res, p)
        \<and> status_of res \<noteq> Paused
        \<and> resume_expiry (now E (Suc (clock_reads w))) = Inr x
        \<and> delete S (taskId rr) s1 = (Some e, s2)
        \<and> message e = Inr m
        \<and> resume_expiry (now E (Suc (Suc (Suc (clock_reads w))))) = Inr x'
      \<longrightarrow>
      fst (resume E S rr w)
        = (case fst (delete S (taskId rr) s2) of
             None \<Rightarrow> Inr (resume_error_task rr st m (now E (Suc (Suc (clock_reads w)))) x')
           | Some e' \<Rightarrow> Inl e')
      \<and> store (snd (resume E S rr w)) = snd (delete S (taskId rr) s2)"
    by (rule impI, elim conjE) (rule resume_delete_failure [OF _ _ _ _ _ refl])
next
  show "load S (taskId rr) (store w) = (Inr (Some st), s1)
        \<and> (initialize (vm E) = Some e
            \<or> initialize (vm E) = None \<and> response_value (fetchResponse rr) = Inl e
            \<or> initialize (vm E) = None \<and> response_value (fetchResponse rr) = Inr a
                \<and> resumeExecution (vm E) (restored_paused E rr st) (rq_vmState rr) a = Inl e)
        \<and> message e = Inr m
        \<and> resume_expiry (now E (Suc (clock_reads w))) = Inr x'
      \<longrightarrow>
      fst (resume E S rr w)
        = (case fst (delete S (taskId rr) s1) of
             None \<Rightarrow> Inr (resume_error_task rr st m (now E (clock_reads w)) x')
           | Some e' \<Rightarrow> Inl e')
      \<and> store (snd (resume E S rr w)) = snd (delete S (taskId rr) s1)"
    (is "?l \<and> ?f \<and> ?m \<and> ?d \<longrightarrow> ?c")
  proof (rule impI)
    assume "?l \<and> ?f \<and> ?m \<and> ?d"
    then have l: ?l and f: ?f and m: ?m and d: ?d by simp_all
    show ?c by (rule resume_engine_failure [OF l f m refl d])
  qed
qed

theorem storage_failures_propagation_witness:
  "fst (load CustomStorage (taskId (test_resume ''t4'' (JObj []))) (store empty_world))
     = Inl (Failure ''load() method must be implemented'')
   \<and> fst (resume (test_env fetching_engine) CustomStorage (test_resume ''t4'' (JObj []))
            empty_world)
       = Inl (Failure ''load() method must be implemented'')
   \<and> fst (delete CustomStorage ''t4'' (store empty_world))
       = Some (Failure ''delete() method must be implemented'')
   \<and> fst (deleteTask CustomStorage ''t4'' empty_world)
       = Inl (Failure ''delete() method must be implemented'')
   \<and> save CustomStorage
        (execute_task (test_request ''t4'') ''t4'' pause_result (JObj [(''fetch'', JNum 1)])
           1000 7201001) (store empty_world)
       = (Some (Failure ''save() method must be implemented''), [])
   \<and> fst (execute (test_env fetching_engine) CustomStorage (test_request ''t4'')
            default_options empty_world)
       = Inr (execute_error_task (test_request ''t4'') ''t4''
                (JStr ''save() method must be implemented'') 1002 7201003)
   \<and> save save_failing_storage
        (resume_task (test_resume ''t2'' (JObj [(''data'', JNum 5)])) stored_task pause_result
           (JObj [(''fetch'', JNum 2)]) 1002 7201003) [(''t2'', stored_task)]
       = (Some (Failure ''save() method must be implemented''), [(''t2'', stored_task)])
   \<and> fst (resume (test_env repausing_engine) save_failing_storage
            (test_resume ''t2'' (JObj [(''data'', JNum 5)])) paused_world)
       = Inr (resume_error_task (test_resume ''t2'' (JObj [(''data'', JNum 5)])) stored_task
                (JStr ''save() method must be implemented'') 1004 7201005)
   \<and> store (snd (resume (test_env repausing_engine) save_failing_storage
            (test_resume ''t2'' (JObj [(''data'', JNum 5)])) paused_world)) = []
   \<and> delete read_only_storage ''t2'' [(''t2'', stored_task)]
       = (Some (Failure ''delete() method must be implemented''), [(''t2'', stored_task)])
   \<and> fst (resume (test_env fetching_engine) read_only_storage
            (test_resume ''t2'' (JObj [(''data'', JNum 5)])) paused_world)
       = Inl (Failure ''delete() method must be implemented'')
   \<and> store (snd (resume (test_env fetching_engine) read_only_storage
            (test_resume ''t2'' (JObj [(''data'', JNum 5)])) paused_world))
       = [(''t2'', stored_task)]"
proof -
  let ?rr = "test_resume ''t4'' (JObj [])"
  let ?r2 = "test_resume ''t2'' (JObj [(''data'', JNum 5)])"
  let ?F = "test_env fetching_engine"
  let ?R = "test_env repausing_engine"
  let ?sv = "Failure ''save() method must be implemented''"
  let ?dl = "Failure ''delete() method must be implemented''"
  let ?t4 = "execute_task (test_request ''t4'') ''t4'' pause_result (JObj [(''fetch'', JNum 1)])
               1000 7201001"
  let ?t2 = "resume_task ?r2 stored_task pause_result (JObj [(''fetch'', JNum 2)])
               1002 7201003"
  have l: "fst (load CustomStorage (taskId ?rr) (store empty_world))
             = Inl (Failure ''load() method must be implemented'')"
    by (simp add: CustomStorage_def)
  have d: "fst (delete CustomStorage ''t4'' (store empty_world)) = Some ?dl"
    by (simp add: CustomStorage_def)
  note T = storage_failures_propagation
    [where S = CustomStorage and rr = ?rr and w = empty_world and E = ?F
       and e = "Failure ''load() method must be implemented''",
     THEN conjunct1, THEN mp, OF l, THEN conjunct1]
  note U = storage_failures_propagation
    [where S = CustomStorage and k = "''t4''" and w = empty_world and e = ?dl,
     THEN conjunct2, THEN conjunct2, THEN conjunct1, THEN mp, OF d]
  have s4: "save CustomStorage ?t4 (store empty_world) = (Some ?sv, [])"
    by (simp add: CustomStorage_def empty_world_def)
  have h4: "option_saveToStorage default_options \<and> initialize (vm ?F) = None
        \<and> executeCode (vm ?F) (rq_code (test_request ''t4''))
            = Inr (pause_result, JObj [(''fetch'', JNum 1)])
        \<and> status_of pause_result = Paused
        \<and> ''t4'' = fst (make_task_id ?F (test_request ''t4'') empty_world)
        \<and> 0 = clock_reads (snd (make_task_id ?F (test_request ''t4'') empty_world))
        \<and> date_toISOString (plus_now (now ?F (Suc 0)) (option_ttl default_options))
            = Inr 7201001
        \<and> save CustomStorage
             (execute_task (test_request ''t4'') ''t4'' pause_result
                (JObj [(''fetch'', JNum 1)]) (now ?F 0) 7201001) (store empty_world)
            = (Some ?sv, [])
        \<and> message ?sv = Inr (JStr ''save() method must be implemented'')
        \<and> date_toISOString (plus_now (now ?F (Suc (Suc (Suc 0)))) (option_ttl default_options))
            = Inr 7201003"
    by (simp add: run_defs fixture_defs)
  note V = storage_failures_propagation
    [where S = CustomStorage and E = ?F and rq = "test_request ''t4''"
       and opts = default_options and w = empty_world and res = pause_result
       and p = "JObj [(''fetch'', JNum 1)]" and tid = "''t4''" and n = 0 and x = 7201001
       and e = ?sv and s = "[]" and m = "JStr ''save() method must be implemented''"
       and x' = 7201003,
     THEN conjunct2, THEN conjunct2, THEN conjunct2, THEN conjunct1, THEN mp, OF h4,
     THEN conjunct1]
  have n2: "now ?F (Suc (Suc 0)) = 1002" by (simp add: test_env_def)
  have s2: "save save_failing_storage ?t2 [(''t2'', stored_task)]
              = (Some ?sv, [(''t2'', stored_task)])"
    by (simp add: save_failing_storage_def CustomStorage_def)
  have h2: "load save_failing_storage (taskId ?r2) (store paused_world)
            = (Inr (Some stored_task), [(''t2'', stored_task)])
        \<and> initialize (vm ?R) = None
        \<and> response_value (fetchResponse ?r2) = Inr (JNum 5)
        \<and> resumeExecution (vm ?R) (restored_paused ?R ?r2 stored_task) (rq_vmState ?r2)
             (JNum 5) = Inr (pause_result, JObj [(''fetch'', JNum 2)])
        \<and> status_of pause_result = Paused
        \<and> resume_expiry (now ?R (Suc (clock_reads paused_world))) = Inr 7201003
        \<and> save save_failing_storage
             (resume_task ?r2 stored_task pause_result (JObj [(''fetch'', JNum 2)])
                (now ?R (clock_reads paused_world)) 7201003) [(''t2'', stored_task)]
            = (Some ?sv, [(''t2'', stored_task)])
        \<and> message ?sv = Inr (JStr ''save() method must be implemented'')
        \<and> resume_expiry (now ?R (Suc (Suc (Suc (clock_reads paused_world))))) = Inr 7201005"
    by (simp add: paused_world_eq run_defs fixture_defs)
  note W = storage_failures_propagation
    [where S = save_failing_storage and E = ?R and rr = ?r2 and w = paused_world
       and st = stored_task and ?s1.0 = "[(''t2'', stored_task)]" and a = "JNum 5"
       and res = pause_result and p = "JObj [(''fetch'', JNum 2)]" and x = 7201003
       and e = ?sv and ?s2.0 = "[(''t2'', stored_task)]"
       and m = "JStr ''save() method must be implemented''" and x' = 7201005,
     THEN conjunct2, THEN conjunct2, THEN conjunct2, THEN conjunct2, THEN conjunct1,
     THEN mp, OF h2]
  have c2: "now ?R (Suc (Suc (clock_reads paused_world))) = 1004"
    by (simp add: paused_world_eq test_env_def)
  have d2: "delete save_failing_storage (taskId ?r2) [(''t2'', stored_task)] = (None, [])"
    by (simp add: save_failing_storage_def InMemoryStorage_def test_resume_def)
  from W c2 d2 have w1: "fst (resume ?R save_failing_storage ?r2 paused_world)
       = Inr (resume_error_task ?r2 stored_task
                (JStr ''save() method must be implemented'') 1004 7201005)"
    and w2: "store (snd (resume ?R save_failing_storage ?r2 paused_world)) = []"
    by simp_all
  have d3: "delete read_only_storage ''t2'' [(''t2'', stored_task)]
              = (Some ?dl, [(''t2'', stored_task)])"
    by (simp add: read_only_storage_def CustomStorage_def)
  have h3: "load read_only_storage (taskId ?r2) (store paused_world)
            = (Inr (Some stored_task), [(''t2'', stored_task)])
        \<and> initialize (vm ?F) = None
        \<and> response_value (fetchResponse ?r2) = Inr (JNum 5)
        \<and> resumeExecution (vm ?F) (restored_paused ?F ?r2 stored_task) (rq_vmState ?r2)
             (JNum 5) = Inr (complete_result (JNum 5), JNull)
        \<and> status_of (complete_result (JNum 5)) \<noteq> Paused
        \<and> resume_expiry (now ?F (Suc (clock_reads paused_world))) = Inr 7201003
        \<and> delete read_only_storage (taskId ?r2) [(''t2'', stored_task)]
            = (Some ?dl, [(''t2'', stored_task)])
        \<and> message ?dl = Inr (JStr ''delete() method must be implemented'')
        \<and> resume_expiry (now ?F (Suc (Suc (Suc (clock_reads paused_world))))) = Inr 7201005"
    by (simp add: paused_world_eq run_defs fixture_defs)
  note X = storage_failures_propagation
    [where S = read_only_storage and E = ?F and rr = ?r2 and w = paused_world
       and st = stored_task and ?s1.0 = "[(''t2'', stored_task)]" and a = "JNum 5"
       and res = "complete_result (JNum 5)" and p = JNull and x = 7201003
       and e = ?dl and ?s2.0 = "[(''t2'', stored_task)]"
       and m = "JStr ''delete() method must be implemented''" and x' = 7201005,
     THEN conjunct2, THEN conjunct2, THEN conjunct2, THEN conjunct2, THEN conjunct2,
     THEN conjunct1, THEN mp, OF h3]
  have k2: "taskId ?r2 = ''t2''" by (simp add: test_resume_def)
  from X d3 k2 have x1: "fst (resume ?F read_only_storage ?r2 paused_world) = Inl ?dl"
    and x2: "store (snd (resume ?F read_only_storage ?r2 paused_world))
               = [(''t2'', stored_task)]"
    by simp_all
  from V n2 have v: "fst (execute ?F CustomStorage (test_request ''t4'') default_options
            empty_world)
       = Inr (execute_error_task (test_request ''t4'') ''t4''
                (JStr ''save() method must be implemented'') 1002 7201003)"
    by simp
  from l T d U s4 v s2 w1 w2 d3 x1 x2 show ?thesis by simp
qed

text \<open>
  As the claim is worded it fails for the save in \<^verbatim>\<open>execute\<close>: with an adapter whose
  \<^verbatim>\<open>save\<close> raises, \<^verbatim>\<open>execute\<close> calls \<^verbatim>\<open>save\<close> on the paused task and returns an
  error task instead of raising.
\<close>

theorem save_failure_counterexample:
  "fst (save CustomStorage
         (execute_task (test_request ''t4'') ''t4'' pause_result (JObj [(''fetch'', JNum 1)])
            1000 7201001)
         (store empty_world))
     = Some (Failure ''save() method must be implemented'')
   \<and> EvSave (execute_task (test_request ''t4'') ''t4'' pause_result
               (JObj [(''fetch'', JNum 1)]) 1000 7201001)
       \<in> set (trace (snd (execute (test_env fetching_engine) CustomStorage
                             (test_request ''t4'') default_options empty_world)))
   \<and> fst (execute (test_env fetching_engine) CustomStorage (test_request ''t4'')
            default_options empty_world)
       = Inr (execute_error_task (test_request ''t4'') ''t4''
                (JStr ''save() method must be implemented'') 1002 7201003)
   \<and> fst (execute (test_env fetching_engine) CustomStorage (test_request ''t4'')
            default_options empty_world)
       \<noteq> Inl (Failure ''save() method must be implemented'')"
  by (simp add: run_defs fixture_defs)

section \<open>C3: task not found\<close>

lemma message_Inl: "message e = Inl e' \<Longrightarrow> error_task_failure e'"
proof (cases e)
  case (Thrown v)
  assume "message e = Inl e'"
  with Thrown show ?thesis by (cases v) (auto simp: error_task_failure_def)
qed auto

lemma date_Inl: "date_toISOString v = Inl e \<Longrightarrow> error_task_failure e"
  by (auto dest: date_toISOString_Inl simp: error_task_failure_def)

lemma resume_expiry_failure: "resume_expiry n = Inl e \<Longrightarrow> error_task_failure e"
  unfolding resume_expiry_def by (rule date_Inl)

lemma not_found_own: "\<not> error_task_failure (not_found k)"
  by (simp add: error_task_failure_def not_found_def read_of_nullish_def invalid_time_def)

lemma execute_raise_origin:
  assumes "execute E S rq opts w = (Inl e, w')"
  shows "error_task_failure e"
  using assms
proof (cases rule: execute_cases)
  case (caught tid k e1 evs w3 w4)
  from caught(7) show ?thesis
    by (cases rule: execute_catch_cases) (auto intro: message_Inl date_Inl)
qed simp_all

lemma resume_absent:
  assumes "fst (load S (taskId rr) (store w)) = Inr None"
  shows "fst (resume E S rr w) = Inl (not_found (taskId rr))
       \<and> emitted w (snd (resume E S rr w)) = [EvLoad (taskId rr)]"
proof -
  obtain r w' where x: "resume E S rr w = (r, w')" by force
  then have "r = Inl (not_found (taskId rr)) \<and> emitted w w' = [EvLoad (taskId rr)]"
    using assms by (cases rule: resume_cases) (simp_all add: emitted_def)
  with x show ?thesis by simp
qed

lemma resume_raise_origin:
  assumes "resume E S rr w = (Inl e, w')" "\<not> error_task_failure e"
  shows "(fst (load S (taskId rr) (store w)) = Inr None \<and> e = not_found (taskId rr))
       \<or> fst (load S (taskId rr) (store w)) = Inl e
       \<or> (\<exists>st s. fst (load S (taskId rr) (store w)) = Inr (Some st)
             \<and> fst (delete S (taskId rr) s) = Some e)"
  using assms(1)
proof (cases rule: resume_cases)
  case (caught st s1 e1 evs w2 w3)
  from caught(6) show ?thesis
  proof (cases rule: resume_catch_cases)
    case (unreadable e')
    with assms(2) show ?thesis by (auto dest: message_Inl)
  next
    case (invalid m e')
    with assms(2) show ?thesis by (auto dest: resume_expiry_failure)
  next
    case (removed m x)
    then show ?thesis by simp
  next
    case (remove_failed m x e')
    then have "fst (delete S (taskId rr) (store w2)) = Some e" by simp
    with caught(1) show ?thesis by auto
  qed
qed simp_all

text \<open>
  Claim C3, as amended.  When the adapter's \<^verbatim>\<open>load\<close> returns no task, \<^verbatim>\<open>resume\<close>
  raises the task-not-found failure and does nothing else: no engine is created.  Set
  aside the failures that are raised while a catch block builds its error task
  (\<^verbatim>\<open>error.message\<close> of a thrown \<^verbatim>\<open>null\<close> or \<^verbatim>\<open>undefined\<close>, an expiry that is not a
  valid time): no other failure leaves \<^verbatim>\<open>execute\<close>, and any other failure that leaves
  \<^verbatim>\<open>resume\<close> is either task-not-found or a failure raised by the adapter (by \<^verbatim>\<open>load\<close>,
  or by \<^verbatim>\<open>delete\<close> once the task was found).  So with the in-memory adapter, which never
  raises, such a failure of \<^verbatim>\<open>resume\<close> is task-not-found and the id is not stored; and
  once \<^verbatim>\<open>resume\<close> has returned a completed or error task, a further \<^verbatim>\<open>resume\<close>
  against that id raises task-not-found.
\<close>

theorem task_not_found:
  "(fst (load S (taskId rr) (store w)) = Inr None \<longrightarrow>
      fst (resume E S rr w) = Inl (not_found (taskId rr))
      \<and> emitted w (snd (resume E S rr w)) = [EvLoad (taskId rr)])
   \<and> \<not> error_task_failure (not_found (taskId rr))
   \<and> (execute E S rq opts w = (Inl e, w') \<longrightarrow> error_task_failure e)
   \<and> (resume E S rr w = (Inl e, w') \<and> \<not> error_task_failure e \<longrightarrow>
        (fst (load S (taskId rr) (store w)) = Inr None \<and> e = not_found (taskId rr))
        \<or> fst (load S (taskId rr) (store w)) = Inl e
        \<or> (\<exists>st s. fst (load S (taskId rr) (store w)) = Inr (Some st)
              \<and> fst (delete S (taskId rr) s) = Some e))
   \<and> (fst (resume E InMemoryStorage rr m) = Inl e \<and> \<not> error_task_failure e \<longrightarrow>
        map_get (taskId rr) (store m) = None \<and> e = not_found (taskId rr))
   \<and> (resume E InMemoryStorage rr m = (Inr t, m') \<and> status t \<noteq> Paused
        \<and> taskId rr2 = taskId rr \<longrightarrow>
        fst (resume E2 InMemoryStorage rr2 m') = Inl (not_found (taskId rr)))"
proof (intro conjI impI)
  assume "fst (load S (taskId rr) (store w)) = Inr None"
  from resume_absent [OF this]
  show "fst (resume E S rr w) = Inl (not_found (taskId rr))"
    and "emitted w (snd (resume E S rr w)) = [EvLoad (taskId rr)]" by simp_all
next
  show "\<not> error_task_failure (not_found (taskId rr))" by (rule not_found_own)
next
  assume "execute E S rq opts w = (Inl e, w')"
  then show "error_task_failure e" by (rule execute_raise_origin)
next
  assume "resume E S rr w = (Inl e, w') \<and> \<not> error_task_failure e"
  then show "(fst (load S (taskId rr) (store w)) = Inr None \<and> e = not_found (taskId rr))
        \<or> fst (load S (taskId rr) (store w)) = Inl e
        \<or> (\<exists>st s. fst (load S (taskId rr) (store w)) = Inr (Some st)
              \<and> fst (delete S (taskId rr) s) = Some e)"
    by (elim conjE) (rule resume_raise_origin)
next
  assume a: "fst (resume E InMemoryStorage rr m) = Inl e \<and> \<not> error_task_failure e"
  then have "resume E InMemoryStorage rr m = (Inl e, snd (resume E InMemoryStorage rr m))"
    by (simp add: prod_eq_iff)
  from resume_raise_origin [OF this] a
  have "map_get (taskId rr) (store m) = None \<and> e = not_found (taskId rr)"
    by (simp add: in_memory_simps)
  then show "map_get (taskId rr) (store m) = None" and "e = not_found (taskId rr)"
    by simp_all
next
  assume a: "resume E InMemoryStorage rr m = (Inr t, m') \<and> status t \<noteq> Paused
        \<and> taskId rr2 = taskId rr"
  then have x: "resume E InMemoryStorage rr m = (Inr t, m')" and s: "status t \<noteq> Paused"
    and k: "taskId rr2 = taskId rr" by simp_all
  from x have "map_get (taskId rr) (store m') = None"
  proof (cases rule: resume_cases)
    case (resumed_paused st s1 a res p x t')
    with s show ?thesis by simp
  next
    case (resumed_done st s1 a res p x t')
    from resumed_done(8) have "store m' = map_delete (taskId rr) s1"
      by (simp add: in_memory_simps)
    then show ?thesis by (simp add: map_get_delete)
  next
    case (caught st s1 e1 evs w2 w3)
    from caught(6) show ?thesis
    proof (cases rule: resume_catch_cases)
      case (removed m1 x1)
      from removed(3) caught(9) have "store m' = map_delete (taskId rr) (store w2)"
        by (simp add: in_memory_simps)
      then show ?thesis by (simp add: map_get_delete)
    qed simp_all
  qed simp_all
  with k have "fst (load InMemoryStorage (taskId rr2) (store m')) = Inr None"
    by (simp add: in_memory_simps)
  from resume_absent [OF this] k
  show "fst (resume E2 InMemoryStorage rr2 m') = Inl (not_found (taskId rr))" by simp
qed

theorem task_not_found_witness:
  "fst (load InMemoryStorage (taskId (test_resume ''does-not-exist'' (JObj [])))
         (store empty_world)) = Inr None
   \<and> fst (resume (test_env fetching_engine) InMemoryStorage
            (test_resume ''does-not-exist'' (JObj [])) empty_world)
       = Inl (Failure ''Task does-not-exist not found in storage'')
   \<and> fst (resume (test_env fetching_engine) InMemoryStorage
            (test_resume ''t2'' (JObj [(''data'', JNum 5)])) paused_world)
       = Inr (resume_task (test_resume ''t2'' (JObj [(''data'', JNum 5)])) stored_task
               (complete_result (JNum 5)) JNull 1002 7201003)
   \<and> status (resume_task (test_resume ''t2'' (JObj [(''data'', JNum 5)])) stored_task
               (complete_result (JNum 5)) JNull 1002 7201003) = Completed
   \<and> fst (resume (test_env fetching_engine) InMemoryStorage
            (test_resume ''t2'' (JObj [(''data'', JNum 5)]))
            (snd (resume (test_env fetching_engine) InMemoryStorage
                   (test_resume ''t2'' (JObj [(''data'', JNum 5)])) paused_world)))
       = Inl (Failure ''Task t2 not found in storage'')
   \<and> fst (execute (test_env throwing_engine) InMemoryStorage (test_request ''t3'')
            (ttl_options PlusInfinity) empty_world) = Inl invalid_time
   \<and> error_task_failure invalid_time
   \<and> fst (resume (test_env fetching_engine) read_only_storage
            (test_resume ''t2'' (JObj [(''data'', JNum 5)])) paused_world)
       = Inl (Failure ''delete() method must be implemented'')
   \<and> \<not> error_task_failure (Failure ''delete() method must be implemented'')
   \<and> fst (load read_only_storage ''t2'' (store paused_world)) = Inr (Some stored_task)
   \<and> fst (delete read_only_storage ''t2'' (store paused_world))
       = Some (Failure ''delete() method must be implemented'')"
proof -
  let ?E = "test_env fetching_engine"
  let ?T = "test_env throwing_engine"
  let ?ra = "test_resume ''does-not-exist'' (JObj [])"
  let ?rr = "test_resume ''t2'' (JObj [(''data'', JNum 5)])"
  let ?t = "resume_task ?rr stored_task (complete_result (JNum 5)) JNull 1002 7201003"
  let ?dl = "Failure ''delete() method must be implemented''"
  have l: "fst (load InMemoryStorage (taskId ?ra) (store empty_world)) = Inr None"
    by (simp add: in_memory_simps empty_world_def)
  note T = task_not_found
    [where S = InMemoryStorage and rr = ?ra and w = empty_world and E = ?E,
     THEN conjunct1, THEN mp, OF l, THEN conjunct1]
  have n: "not_found (taskId ?ra) = Failure ''Task does-not-exist not found in storage''"
    by (simp add: not_found_def test_resume_def)
  have y: "fst (resume ?E InMemoryStorage ?rr paused_world) = Inr ?t"
    by (simp add: paused_world_eq stored_task_def run_defs fixture_defs)
  then have z: "resume ?E InMemoryStorage ?rr paused_world
             = (Inr ?t, snd (resume ?E InMemoryStorage ?rr paused_world))"
    by (simp add: prod_eq_iff)
  have c: "status ?t = Completed" by (simp add: complete_result_def status_of_def)
  then have c': "status ?t \<noteq> Paused" by simp
  note U = task_not_found
    [where E = ?E and rr = ?rr and m = paused_world and t = ?t
       and m' = "snd (resume ?E InMemoryStorage ?rr paused_world)"
       and ?rr2.0 = ?rr and ?E2.0 = ?E,
     THEN conjunct2, THEN conjunct2, THEN conjunct2, THEN conjunct2, THEN conjunct2, THEN mp,
     OF conjI [OF z conjI [OF c' refl]]]
  have n2: "not_found (taskId ?rr) = Failure ''Task t2 not found in storage''"
    by (simp add: not_found_def test_resume_def)
  have x0: "fst (execute ?T InMemoryStorage (test_request ''t3'') (ttl_options PlusInfinity)
               empty_world) = Inl invalid_time"
    by (simp add: run_defs fixture_defs)
  then have x: "execute ?T InMemoryStorage (test_request ''t3'') (ttl_options PlusInfinity)
               empty_world
      = (Inl invalid_time, snd (execute ?T InMemoryStorage (test_request ''t3'')
           (ttl_options PlusInfinity) empty_world))"
    by (simp add: prod_eq_iff)
  note V = task_not_found
    [where E = ?T and S = InMemoryStorage and rq = "test_request ''t3''"
       and opts = "ttl_options PlusInfinity" and w = empty_world and e = invalid_time
       and w' = "snd (execute ?T InMemoryStorage (test_request ''t3'')
           (ttl_options PlusInfinity) empty_world)",
     THEN conjunct2, THEN conjunct2, THEN conjunct1, THEN mp, OF x]
  have r0: "fst (resume ?E read_only_storage ?rr paused_world) = Inl ?dl"
    by (simp add: paused_world_eq stored_task_def run_defs fixture_defs)
  then have r: "resume ?E read_only_storage ?rr paused_world
      = (Inl ?dl, snd (resume ?E read_only_storage ?rr paused_world))"
    by (simp add: prod_eq_iff)
  have q: "\<not> error_task_failure ?dl"
    by (simp add: error_task_failure_def read_of_nullish_def invalid_time_def)
  note W = task_not_found
    [where E = ?E and S = read_only_storage and rr = ?rr and w = paused_world and e = ?dl
       and w' = "snd (resume ?E read_only_storage ?rr paused_world)",
     THEN conjunct2, THEN conjunct2, THEN conjunct2, THEN conjunct1, THEN mp,
     OF conjI [OF r q]]
  have k: "taskId ?rr = ''t2''" by (simp add: test_resume_def)
  have ld: "fst (load read_only_storage ''t2'' (store paused_world)) = Inr (Some stored_task)"
    by (simp add: paused_world_eq read_only_storage_def InMemoryStorage_def)
  have dl: "fst (delete read_only_storage ''t2'' (store paused_world)) = Some ?dl"
    by (simp add: read_only_storage_def CustomStorage_def)
  from W k ld have "\<exists>st s. fst (delete read_only_storage ''t2'' s) = Some ?dl"
    by (auto simp: not_found_def)
  with T n l y c U n2 x0 V r0 q ld dl show ?thesis by simp
qed

text \<open>
  As the claim is worded it fails: task-not-found is not the only path on which
  \<^verbatim>\<open>resume\<close> raises.  With an adapter whose \<^verbatim>\<open>load\<close> raises, \<^verbatim>\<open>resume\<close> raises
  that failure, and \<^verbatim>\<open>load\<close> has returned nothing.
\<close>

theorem only_raising_path_counterexample:
  "fst (load CustomStorage ''t3'' (store empty_world))
     = Inl (Failure ''load() method must be implemented'')
   \<and> fst (load CustomStorage ''t3'' (store empty_world)) \<noteq> Inr None
   \<and> fst (resume (test_env fetching_engine) CustomStorage (test_resume ''t3'' (JObj []))
            empty_world)
       = Inl (Failure ''load() method must be implemented'')
   \<and> Failure ''load() method must be implemented'' \<noteq> not_found ''t3''"
  by (simp add: run_defs fixture_defs)

end
